theory Spec2Isabelle
  imports Main "HOL-Library.List_Lexorder" "HOL-Library.Sublist"
begin

section \<open>Text\<close>

text \<open>
  A Python string is a sequence of code points and is modelled as the list of their
  numbers, \<open>ustring\<close>; this covers every string, also code points above 255 and lone
  surrogates (\<open>0xD800\<close> to \<open>0xDFFF\<close>), which reach the program through the command line and
  through escapes in the backing file. \<open>str\<close> writes an ASCII literal as such a list.
  Strings are compared by code point, lexicographically, as Python compares them.

  \<open>str.strip\<close> removes the code points for which \<open>str.isspace\<close> holds. \<open>str.lower\<close> is
  given for the strings whose code points are all below 256, where it changes the letters
  \<open>A\<close> to \<open>Z\<close> and the upper-case letters of the range \<open>0xC0\<close> to \<open>0xDE\<close>; on every other
  string it is the case mapping of Unicode, which is not modelled: \<open>unicode_lower\<close> stands
  for it, and nothing below is derived from its value.
\<close>

type_synonym ustring = "nat list"

abbreviation (input) cp :: "char \<Rightarrow> nat" where
  "cp c \<equiv> of_char c"

definition str :: "string \<Rightarrow> ustring" where
  "str s = map of_char s"

definition lower_char :: "nat \<Rightarrow> nat" where
  "lower_char n =
     (if (0x41 \<le> n \<and> n \<le> 0x5A) \<or> (0xC0 \<le> n \<and> n \<le> 0xDE \<and> n \<noteq> 0xD7)
      then n + 0x20 else n)"

definition unicode_lower :: "ustring \<Rightarrow> ustring" where
  "unicode_lower = undefined"

definition lower :: "ustring \<Rightarrow> ustring" where
  "lower s = (if list_all (\<lambda>n. n < 256) s then map lower_char s else unicode_lower s)"

definition is_space :: "nat \<Rightarrow> bool" where
  "is_space n \<longleftrightarrow>
     n \<in> set [0x09, 0x0A, 0x0B, 0x0C, 0x0D, 0x1C, 0x1D, 0x1E, 0x1F, 0x20, 0x85, 0xA0,
               0x1680, 0x2000, 0x2001, 0x2002, 0x2003, 0x2004, 0x2005, 0x2006, 0x2007,
               0x2008, 0x2009, 0x200A, 0x2028, 0x2029, 0x202F, 0x205F, 0x3000]"

definition strip :: "ustring \<Rightarrow> ustring" where
  "strip s = rev (dropWhile is_space (rev (dropWhile is_space s)))"

text \<open>\<open>contains s q\<close> is Python's \<open>q in s\<close> on strings.\<close>

fun contains :: "ustring \<Rightarrow> ustring \<Rightarrow> bool" where
  "contains [] q = (q = [])"
| "contains (c # cs) q = (prefix q (c # cs) \<or> contains cs q)"

text \<open>
  The file is written with the codec \<open>utf-8\<close>, which refuses a surrogate code point.
\<close>

definition encodable :: "ustring \<Rightarrow> bool" where
  "encodable s \<longleftrightarrow> list_all (\<lambda>n. n < 0xD800 \<or> 0xDFFF < n) s"

section \<open>URL validation\<close>

text \<open>
  \<open>_validate_url\<close> asks the standard library's \<open>urlparse\<close> for the scheme and the network
  location. \<open>urlparse\<close> below follows \<open>urllib.parse.urlsplit\<close> for these two components:
  leading C0 control characters and spaces are dropped, tab, CR and LF are removed, the
  text before the first colon is the scheme when it starts with an ASCII letter and
  consists of scheme characters, and after \<open>//\<close> the network location runs up to the first
  of \<open>/\<close>, \<open>?\<close>, \<open>#\<close>. A network location with only one of the two square brackets raises
  \<open>ValueError\<close>, which is the result \<open>None\<close>. On a network location with a square bracket or
  a code point outside ASCII the library runs further checks (of the bracketed host, of
  the normalised form) that can raise \<open>ValueError\<close> too; they are not modelled:
  \<open>netloc_refused\<close> stands for their verdict, and nothing below is derived from its value.
\<close>

definition scheme_chars :: ustring where
  "scheme_chars =
     str ''abcdefghijklmnopqrstuvwxyzABCDEFGHIJKLMNOPQRSTUVWXYZ0123456789+-.''"

definition is_ascii_alpha :: "nat \<Rightarrow> bool" where
  "is_ascii_alpha n \<longleftrightarrow> (0x41 \<le> n \<and> n \<le> 0x5A) \<or> (0x61 \<le> n \<and> n \<le> 0x7A)"

definition is_c0_or_space :: "nat \<Rightarrow> bool" where
  "is_c0_or_space n \<longleftrightarrow> n \<le> 0x20"

definition split_scheme :: "ustring \<Rightarrow> ustring \<times> ustring" where
  "split_scheme u =
     (let head = takeWhile (\<lambda>c. c \<noteq> cp CHR '':'') u
      in if cp CHR '':'' \<in> set u \<and> head \<noteq> [] \<and> is_ascii_alpha (hd u)
            \<and> list_all (\<lambda>c. c \<in> set scheme_chars) head
         then (lower head, drop (Suc (length head)) u)
         else ([], u))"

definition split_netloc :: "ustring \<Rightarrow> ustring" where
  "split_netloc u =
     (if take 2 u = str ''//''
      then takeWhile (\<lambda>c. c \<notin> set (str ''/?#'')) (drop 2 u)
      else [])"

definition netloc_refused :: "ustring \<Rightarrow> bool" where
  "netloc_refused = undefined"

definition urlparse :: "ustring \<Rightarrow> (ustring \<times> ustring) option" where
  "urlparse u0 =
     (let u1 = dropWhile is_c0_or_space u0;
          u2 = filter (\<lambda>c. c \<notin> set [0x09, 0x0D, 0x0A]) u1;
          (scheme, u3) = split_scheme u2;
          netloc = split_netloc u3
      in if (cp CHR ''['' \<in> set netloc) \<noteq> (cp CHR '']'' \<in> set netloc)
         then None
         else if list_ex (\<lambda>c. c = cp CHR ''['' \<or> 0x80 \<le> c) netloc \<and> netloc_refused netloc
         then None
         else Some (scheme, netloc))"

definition validate_url :: "ustring \<Rightarrow> bool" where
  "validate_url u =
     (case urlparse u of
        None \<Rightarrow> False
      | Some (scheme, netloc) \<Rightarrow> scheme \<noteq> [] \<and> netloc \<noteq> [])"

section \<open>Records, the manager and the backing file\<close>

text \<open>
  A bookmark is a dictionary with the three members \<open>url\<close>, \<open>title\<close> and \<open>tag\<close>, each a
  string. A dictionary keeps the order in which its members were inserted, and \<open>json.dump\<close>
  writes them in that order: \<open>member_order\<close> is this order, one of the six there are.
\<close>

datatype member = Url | Title | Tag

datatype member_order =
  Url_Title_Tag | Url_Tag_Title | Title_Url_Tag | Title_Tag_Url | Tag_Url_Title | Tag_Title_Url

record bookmark =
  url :: ustring
  title :: ustring
  tag :: ustring
  members :: member_order

definition members_in :: "member_order \<Rightarrow> member list" where
  "members_in ord =
     (case ord of
        Url_Title_Tag \<Rightarrow> [Url, Title, Tag]
      | Url_Tag_Title \<Rightarrow> [Url, Tag, Title]
      | Title_Url_Tag \<Rightarrow> [Title, Url, Tag]
      | Title_Tag_Url \<Rightarrow> [Title, Tag, Url]
      | Tag_Url_Title \<Rightarrow> [Tag, Url, Title]
      | Tag_Title_Url \<Rightarrow> [Tag, Title, Url])"

definition member_name :: "member \<Rightarrow> ustring" where
  "member_name k = (case k of Url \<Rightarrow> str ''url'' | Title \<Rightarrow> str ''title'' | Tag \<Rightarrow> str ''tag'')"

definition member_value :: "bookmark \<Rightarrow> member \<Rightarrow> ustring" where
  "member_value b k = (case k of Url \<Rightarrow> url b | Title \<Rightarrow> title b | Tag \<Rightarrow> tag b)"

record manager =
  data_file :: ustring
  bookmarks :: "bookmark list"

text \<open>
  The disk maps a path to the text of the file there. A text with a surrogate code point
  stands for a file that is not valid UTF-8: no text that the codec \<open>utf-8\<close> decodes holds
  one.
\<close>

type_synonym disk = "ustring \<rightharpoonup> ustring"

text \<open>
  The first eight are the rejections that a method reports by its message and the result
  \<open>False\<close>. \<open>UnicodeEncodeError\<close> is the exception of that name: it is raised inside the
  method and leaves it, since no handler there catches it.
\<close>

datatype error =
  InvalidUrl | DuplicateUrl | EmptyTitle | EmptyTag | EmptyQuery
  | EmptyIdentifier | NotFound | SaveFailure | UnicodeEncodeError

text \<open>
  What the environment does when \<open>_save_bookmarks\<close> opens and writes the file: nothing
  fails, \<open>open\<close> raises \<open>IOError\<close> and the file is untouched, or the file was truncated and
  the write (or the close that flushes it) raises \<open>IOError\<close> after some characters
  reached the file.
\<close>

datatype io_outcome = IoSuccess | IoOpenError | IoWriteError nat

subsection \<open>\<open>json.dump\<close> with \<open>indent=2, ensure_ascii=False\<close>\<close>

text \<open>
  \<open>json.dump\<close> writes the text chunk by chunk, as the encoder yields them; \<open>json_chunks\<close>
  are these chunks for a list of bookmarks and \<open>json_dumps\<close> is the whole text. A string is
  one chunk: the quotes and, between them, the code points as they are, except the quote,
  the backslash and the control characters below \<open>0x20\<close>, which are escaped.
\<close>

definition hex_digits :: ustring where
  "hex_digits = str ''0123456789abcdef''"

definition escape_char :: "nat \<Rightarrow> ustring" where
  "escape_char c =
     (if c = cp CHR 0x22 then [cp CHR 0x5C, cp CHR 0x22]
      else if c = cp CHR 0x5C then [cp CHR 0x5C, cp CHR 0x5C]
      else if c = 0x0A then [cp CHR 0x5C, cp CHR ''n'']
      else if c = 0x0D then [cp CHR 0x5C, cp CHR ''r'']
      else if c = 0x09 then [cp CHR 0x5C, cp CHR ''t'']
      else if c = 0x08 then [cp CHR 0x5C, cp CHR ''b'']
      else if c = 0x0C then [cp CHR 0x5C, cp CHR ''f'']
      else if c < 0x20
        then [cp CHR 0x5C, cp CHR ''u'', cp CHR ''0'', cp CHR ''0'',
              hex_digits ! (c div 16), hex_digits ! (c mod 16)]
      else [c])"

definition encode_string :: "ustring \<Rightarrow> ustring" where
  "encode_string s = cp CHR 0x22 # concat (map escape_char s) @ [cp CHR 0x22]"

definition newline_indent :: "nat \<Rightarrow> ustring" where
  "newline_indent level = 0x0A # replicate (2 * level) (cp CHR '' '')"

definition member_chunks :: "bookmark \<Rightarrow> member \<Rightarrow> ustring list" where
  "member_chunks b k =
     [encode_string (member_name k), str '': '', encode_string (member_value b k)]"

fun members_chunks :: "bookmark \<Rightarrow> member list \<Rightarrow> ustring list" where
  "members_chunks b [] = []"
| "members_chunks b [k] = member_chunks b k"
| "members_chunks b (k # ks) =
     member_chunks b k @ [cp CHR '','' # newline_indent 2] @ members_chunks b ks"

definition bookmark_chunks :: "bookmark \<Rightarrow> ustring list" where
  "bookmark_chunks b =
     [str ''{'', newline_indent 2] @ members_chunks b (members_in (members b))
     @ [newline_indent 1, str ''}'']"

fun items_chunks :: "bookmark list \<Rightarrow> ustring list" where
  "items_chunks [] = []"
| "items_chunks [b] = bookmark_chunks b"
| "items_chunks (b # bs) =
     bookmark_chunks b @ [cp CHR '','' # newline_indent 1] @ items_chunks bs"

definition json_chunks :: "bookmark list \<Rightarrow> ustring list" where
  "json_chunks bs =
     (if bs = [] then [str ''[]'']
      else [cp CHR ''['' # newline_indent 1] @ items_chunks bs @ [newline_indent 0, str '']''])"

definition json_dumps :: "bookmark list \<Rightarrow> ustring" where
  "json_dumps bs = concat (json_chunks bs)"

text \<open>The text of the items of a non-empty list, between the brackets.\<close>

definition items_text :: "bookmark list \<Rightarrow> ustring" where
  "items_text bs = concat (items_chunks bs)"

subsection \<open>Saving\<close>

text \<open>
  \<open>_save_bookmarks\<close> returns \<open>True\<close> (\<open>Saved\<close>), returns \<open>False\<close> after an \<open>IOError\<close>
  (\<open>SaveFailed\<close>), or does not return: writing a chunk with a surrogate code point raises
  \<open>UnicodeEncodeError\<close>, which \<open>except IOError\<close> does not catch (\<open>SaveRaised\<close>). The chunks
  before that one were written; they are what the file holds afterwards.
\<close>

datatype save_result = Saved | SaveFailed | SaveRaised

definition fields_encodable :: "bookmark \<Rightarrow> bool" where
  "fields_encodable b \<longleftrightarrow> encodable (url b) \<and> encodable (title b) \<and> encodable (tag b)"

definition handed_to_file :: "bookmark list \<Rightarrow> ustring" where
  "handed_to_file bs = concat (takeWhile encodable (json_chunks bs))"

definition save_bookmarks :: "io_outcome \<Rightarrow> manager \<Rightarrow> disk \<Rightarrow> save_result \<times> disk" where
  "save_bookmarks io m d =
     (case io of
        IoOpenError \<Rightarrow> (SaveFailed, d)
      | IoWriteError k \<Rightarrow>
          (SaveFailed, d(data_file m \<mapsto> take k (handed_to_file (bookmarks m))))
      | IoSuccess \<Rightarrow>
          if list_all encodable (json_chunks (bookmarks m))
          then (Saved, d(data_file m \<mapsto> json_dumps (bookmarks m)))
          else (SaveRaised, d(data_file m \<mapsto> handed_to_file (bookmarks m))))"

subsection \<open>\<open>json.load\<close>\<close>

text \<open>
  The decoder of the standard library, as its scanner in C reads a text: white space is
  skipped where the library skips it, a string ends at the closing quote, a control
  character inside a string and an unknown escape are errors, \<open>\uXXXX\<close> takes four
  hexadecimal digits and a high surrogate followed by a low one is joined. A number is
  kept as its text. The recursion on nested values is bounded by a fuel argument;
  \<open>json_loads\<close> supplies twice the length of the text plus one, which is enough for every
  text (\<open>json_loads_any_fuel\<close> below). The result \<open>None\<close> is \<open>JSONDecodeError\<close>. The limit
  of the interpreter on the depth of nesting is not modelled.
\<close>

datatype json =
  JNull | JBool bool | JNumber ustring | JString ustring
  | JArray "json list" | JObject "(ustring \<times> json) list"

definition is_json_ws :: "nat \<Rightarrow> bool" where
  "is_json_ws c \<longleftrightarrow> c \<in> set [0x20, 0x09, 0x0A, 0x0D]"

definition skip_ws :: "ustring \<Rightarrow> ustring" where
  "skip_ws s = dropWhile is_json_ws s"

definition hex_value :: "nat \<Rightarrow> nat option" where
  "hex_value c =
     map_of (zip (str ''0123456789abcdefABCDEF'')
        [0, 1, 2, 3, 4, 5, 6, 7, 8, 9, 10, 11, 12, 13, 14, 15, 10, 11, 12, 13, 14, 15]) c"

definition decode_u4 :: "ustring \<Rightarrow> nat option" where
  "decode_u4 s =
     (case map hex_value s of
        [Some a, Some b, Some c, Some d] \<Rightarrow> Some (((a * 16 + b) * 16 + c) * 16 + d)
      | _ \<Rightarrow> None)"

definition simple_escape :: "nat \<Rightarrow> nat option" where
  "simple_escape e =
     map_of [(cp CHR 0x22, 0x22), (cp CHR 0x5C, 0x5C), (cp CHR ''/'', 0x2F),
             (cp CHR ''b'', 0x08), (cp CHR ''f'', 0x0C), (cp CHR ''n'', 0x0A),
             (cp CHR ''r'', 0x0D), (cp CHR ''t'', 0x09)] e"

definition push :: "nat \<Rightarrow> (ustring \<times> ustring) option \<Rightarrow> (ustring \<times> ustring) option" where
  "push x r = (case r of None \<Rightarrow> None | Some (xs, rest) \<Rightarrow> Some (x # xs, rest))"

text \<open>\<open>scanstring\<close> reads a string from just after its opening quote.\<close>

fun scanstring :: "ustring \<Rightarrow> (ustring \<times> ustring) option" where
  "scanstring [] = None"
| "scanstring (c # cs) =
     (if c = cp CHR 0x22 then Some ([], cs)
      else if c = cp CHR 0x5C then
        (case cs of
           [] \<Rightarrow> None
         | e # r \<Rightarrow>
             if e = cp CHR ''u'' then
               (case decode_u4 (take 4 r) of
                  None \<Rightarrow> None
                | Some uni \<Rightarrow>
                    if 0xD800 \<le> uni \<and> uni \<le> 0xDBFF
                       \<and> take 2 (drop 4 r) = [cp CHR 0x5C, cp CHR ''u'']
                    then
                      (case decode_u4 (take 4 (drop 6 r)) of
                         None \<Rightarrow> None
                       | Some uni2 \<Rightarrow>
                           if 0xDC00 \<le> uni2 \<and> uni2 \<le> 0xDFFF
                           then push (0x10000 + (uni - 0xD800) * 1024 + (uni2 - 0xDC00))
                                  (scanstring (drop 10 r))
                           else push uni (scanstring (drop 4 r)))
                    else push uni (scanstring (drop 4 r)))
             else
               (case simple_escape e of
                  None \<Rightarrow> None
                | Some x \<Rightarrow> push x (scanstring r)))
      else if c < 0x20 then None
      else push c (scanstring cs))"

definition is_digit :: "nat \<Rightarrow> bool" where
  "is_digit c \<longleftrightarrow> cp CHR ''0'' \<le> c \<and> c \<le> cp CHR ''9''"

text \<open>
  The number pattern of the scanner: an optional minus, \<open>0\<close> or a digit string without a
  leading zero, then an optional fraction and an optional exponent, each taken only when
  complete.
\<close>

definition match_fraction :: "ustring \<Rightarrow> ustring \<times> ustring" where
  "match_fraction s =
     (case s of
        c # d # r \<Rightarrow>
          if c = cp CHR ''.'' \<and> is_digit d
          then (c # d # takeWhile is_digit r, dropWhile is_digit r)
          else ([], s)
      | _ \<Rightarrow> ([], s))"

definition match_exponent :: "ustring \<Rightarrow> ustring \<times> ustring" where
  "match_exponent s =
     (case s of
        [] \<Rightarrow> ([], s)
      | e # r \<Rightarrow>
          if e = cp CHR ''e'' \<or> e = cp CHR ''E'' then
            (let sign = (if take 1 r = str ''-'' \<or> take 1 r = str ''+'' then take 1 r else []);
                 r1 = drop (length sign) r;
                 ds = takeWhile is_digit r1
             in if ds = [] then ([], s) else (e # sign @ ds, dropWhile is_digit r1))
          else ([], s))"

definition match_number :: "ustring \<Rightarrow> (ustring \<times> ustring) option" where
  "match_number s =
     (let sign = (if take 1 s = str ''-'' then str ''-'' else []);
          s1 = drop (length sign) s
      in case s1 of
           [] \<Rightarrow> None
         | c # r \<Rightarrow>
             if \<not> is_digit c then None
             else
               let ds = (if c = cp CHR ''0'' then [] else takeWhile is_digit r);
                   r1 = drop (length ds) r;
                   (frac, r2) = match_fraction r1;
                   (ex, r3) = match_exponent r2
               in Some (sign @ c # ds @ frac @ ex, r3))"

definition scan_literal :: "ustring \<Rightarrow> (json \<times> ustring) option" where
  "scan_literal s =
     (if prefix (str ''null'') s then Some (JNull, drop 4 s)
      else if prefix (str ''true'') s then Some (JBool True, drop 4 s)
      else if prefix (str ''false'') s then Some (JBool False, drop 5 s)
      else (case match_number s of
              Some (lexeme, r) \<Rightarrow> Some (JNumber lexeme, r)
            | None \<Rightarrow>
                if prefix (str ''NaN'') s then Some (JNumber (str ''NaN''), drop 3 s)
                else if prefix (str ''Infinity'') s
                  then Some (JNumber (str ''Infinity''), drop 8 s)
                else if prefix (str ''-Infinity'') s
                  then Some (JNumber (str ''-Infinity''), drop 9 s)
                else None))"

text \<open>
  \<open>parse_value\<close> is \<open>scan_once\<close>; \<open>parse_array_items\<close> is the loop of \<open>JSONArray\<close>, entered
  at the first value; \<open>parse_object_items\<close> is the loop of \<open>JSONObject\<close>, entered just after
  the opening quote of a key.
\<close>

fun parse_value :: "nat \<Rightarrow> ustring \<Rightarrow> (json \<times> ustring) option"
  and parse_array_items :: "nat \<Rightarrow> ustring \<Rightarrow> (json list \<times> ustring) option"
  and parse_object_items :: "nat \<Rightarrow> ustring \<Rightarrow> ((ustring \<times> json) list \<times> ustring) option"
where
  "parse_value 0 s = None"
| "parse_value (Suc n) s =
     (case s of
        [] \<Rightarrow> None
      | c # cs \<Rightarrow>
          if c = cp CHR 0x22 then
            (case scanstring cs of
               None \<Rightarrow> None
             | Some (x, r) \<Rightarrow> Some (JString x, r))
          else if c = cp CHR ''{'' then
            (case skip_ws cs of
               [] \<Rightarrow> None
             | c1 # r1 \<Rightarrow>
                 if c1 = cp CHR ''}'' then Some (JObject [], r1)
                 else if c1 = cp CHR 0x22 then
                   (case parse_object_items n r1 of
                      None \<Rightarrow> None
                    | Some (kvs, r2) \<Rightarrow> Some (JObject kvs, r2))
                 else None)
          else if c = cp CHR ''['' then
            (case skip_ws cs of
               [] \<Rightarrow> None
             | c1 # r1 \<Rightarrow>
                 if c1 = cp CHR '']'' then Some (JArray [], r1)
                 else
                   (case parse_array_items n (c1 # r1) of
                      None \<Rightarrow> None
                    | Some (vs, r2) \<Rightarrow> Some (JArray vs, r2)))
          else scan_literal s)"
| "parse_array_items 0 s = None"
| "parse_array_items (Suc n) s =
     (case parse_value n s of
        None \<Rightarrow> None
      | Some (v, r) \<Rightarrow>
          (case skip_ws r of
             [] \<Rightarrow> None
           | c # r1 \<Rightarrow>
               if c = cp CHR '']'' then Some ([v], r1)
               else if c = cp CHR '','' then
                 (case parse_array_items n (skip_ws r1) of
                    None \<Rightarrow> None
                  | Some (vs, r2) \<Rightarrow> Some (v # vs, r2))
               else None))"
| "parse_object_items 0 s = None"
| "parse_object_items (Suc n) s =
     (case scanstring s of
        None \<Rightarrow> None
      | Some (k, r) \<Rightarrow>
          (case skip_ws r of
             [] \<Rightarrow> None
           | c # r1 \<Rightarrow>
               if c \<noteq> cp CHR '':'' then None
               else
                 (case parse_value n (skip_ws r1) of
                    None \<Rightarrow> None
                  | Some (v, r2) \<Rightarrow>
                      (case skip_ws r2 of
                         [] \<Rightarrow> None
                       | c2 # r3 \<Rightarrow>
                           if c2 = cp CHR ''}'' then Some ([(k, v)], r3)
                           else if c2 = cp CHR '','' then
                             (case skip_ws r3 of
                                [] \<Rightarrow> None
                              | c3 # r4 \<Rightarrow>
                                  if c3 \<noteq> cp CHR 0x22 then None
                                  else
                                    (case parse_object_items n r4 of
                                       None \<Rightarrow> None
                                     | Some (kvs, r5) \<Rightarrow> Some ((k, v) # kvs, r5)))
                           else None))))"

text \<open>\<open>json.loads\<close>: a text that starts with the byte order mark \<open>U+FEFF\<close> is refused.\<close>

definition json_loads :: "ustring \<Rightarrow> json option" where
  "json_loads s =
     (if take 1 s = [0xFEFF] then None
      else
        (case parse_value (2 * length s + 1) (skip_ws s) of
           None \<Rightarrow> None
         | Some (v, r) \<Rightarrow> if skip_ws r = [] then Some v else None))"

text \<open>
  The decoded value as a collection. An object becomes a dictionary: its members are in
  the order of their first occurrence, and a later member replaces the value of an earlier
  one of the same name. The manager of this model holds a list of dictionaries with the
  three string members; \<open>to_bookmarks\<close> is \<open>None\<close> for every other value (not a list, a
  member missing or added, a value that is not a string), which the model does not cover.
\<close>

definition first_occurrences :: "ustring list \<Rightarrow> ustring list" where
  "first_occurrences ks = rev (remdups (rev ks))"

definition order_of :: "ustring list \<Rightarrow> member_order option" where
  "order_of names =
     find (\<lambda>ord. map member_name (members_in ord) = names)
       [Url_Title_Tag, Url_Tag_Title, Title_Url_Tag, Title_Tag_Url, Tag_Url_Title,
        Tag_Title_Url]"

definition to_bookmark :: "json \<Rightarrow> bookmark option" where
  "to_bookmark v =
     (case v of
        JObject kvs \<Rightarrow>
          (let dict = map_of (rev kvs)
           in case (order_of (first_occurrences (map fst kvs)),
                    dict (str ''url''), dict (str ''title''), dict (str ''tag'')) of
                (Some ord, Some (JString u), Some (JString t), Some (JString g)) \<Rightarrow>
                  Some \<lparr>url = u, title = t, tag = g, members = ord\<rparr>
              | _ \<Rightarrow> None)
      | _ \<Rightarrow> None)"

definition to_bookmarks :: "json \<Rightarrow> bookmark list option" where
  "to_bookmarks v =
     (case v of
        JArray vs \<Rightarrow> those (map to_bookmark vs)
      | _ \<Rightarrow> None)"

text \<open>The value that the decoder builds for a dictionary written by \<open>json.dump\<close>.\<close>

definition json_of_bookmark :: "bookmark \<Rightarrow> json" where
  "json_of_bookmark b =
     JObject (map (\<lambda>k. (member_name k, JString (member_value b k))) (members_in (members b)))"

subsection \<open>Loading\<close>

text \<open>
  \<open>_load_bookmarks\<close>: no file gives the empty list; a file that cannot be opened
  (\<open>read_ok\<close> false, \<open>IOError\<close>) or decoded as JSON gives the empty list; a file that is not
  valid UTF-8 makes the read raise \<open>UnicodeDecodeError\<close>, which is not caught
  (\<open>LoadRaised\<close>); otherwise the decoded value is the collection, or a value that the model
  does not cover (\<open>NotCovered\<close>).
\<close>

datatype loaded = Loaded "bookmark list" | LoadRaised | NotCovered

definition load_bookmarks :: "bool \<Rightarrow> ustring \<Rightarrow> disk \<Rightarrow> loaded" where
  "load_bookmarks read_ok path d =
     (case d path of
        None \<Rightarrow> Loaded []
      | Some content \<Rightarrow>
          if \<not> read_ok then Loaded []
          else if \<not> encodable content then LoadRaised
          else (case json_loads content of
                  None \<Rightarrow> Loaded []
                | Some v \<Rightarrow>
                    (case to_bookmarks v of
                       None \<Rightarrow> NotCovered
                     | Some bs \<Rightarrow> Loaded bs)))"

section \<open>Store operations\<close>

text \<open>
  What an operation prints is given as its result. Printing is taken to succeed: whether
  the terminal can show a string is decided by the environment of the run, not by the
  source.
\<close>

fun find_bookmark_by_url :: "bookmark list \<Rightarrow> ustring \<Rightarrow> nat option" where
  "find_bookmark_by_url [] u = None"
| "find_bookmark_by_url (b # bs) u =
     (if lower (url b) = lower u then Some 0
      else map_option Suc (find_bookmark_by_url bs u))"

definition find_bookmarks_by_title :: "bookmark list \<Rightarrow> ustring \<Rightarrow> nat list" where
  "find_bookmarks_by_title bs t =
     filter (\<lambda>i. lower (title (bs ! i)) = lower t) [0..<length bs]"

text \<open>
  \<open>add_bookmark\<close>: the checks in the order of the source, then the append and the save.
  When the save returns \<open>False\<close> the last record is popped; when the save raises, the
  exception leaves \<open>add_bookmark\<close> and the appended record stays.
\<close>

definition add_bookmark ::
  "io_outcome \<Rightarrow> manager \<Rightarrow> disk \<Rightarrow> ustring \<Rightarrow> ustring \<Rightarrow> ustring
     \<Rightarrow> (error + bookmark) \<times> manager \<times> disk" where
  "add_bookmark io m d u t g =
     (if \<not> validate_url u then (Inl InvalidUrl, m, d)
      else if find_bookmark_by_url (bookmarks m) u \<noteq> None then (Inl DuplicateUrl, m, d)
      else if strip t = [] then (Inl EmptyTitle, m, d)
      else if strip g = [] then (Inl EmptyTag, m, d)
      else
        let new_bookmark =
              \<lparr>url = strip u, title = strip t, tag = strip g, members = Url_Title_Tag\<rparr>;
            m1 = m\<lparr>bookmarks := bookmarks m @ [new_bookmark]\<rparr>;
            (saved, d1) = save_bookmarks io m1 d
        in case saved of
             Saved \<Rightarrow> (Inr new_bookmark, m1, d1)
           | SaveFailed \<Rightarrow> (Inl SaveFailure, m1\<lparr>bookmarks := butlast (bookmarks m1)\<rparr>, d1)
           | SaveRaised \<Rightarrow> (Inl UnicodeEncodeError, m1, d1))"

datatype display = NothingFound | Listing "bookmark list"

definition truthy :: "ustring option \<Rightarrow> bool" where
  "truthy x \<longleftrightarrow> (case x of None \<Rightarrow> False | Some s \<Rightarrow> s \<noteq> [])"

definition bookmarks_to_show ::
  "manager \<Rightarrow> ustring option \<Rightarrow> ustring option \<Rightarrow> bookmark list" where
  "bookmarks_to_show m filter_type filter_value =
     (if truthy filter_type \<and> truthy filter_value
      then filter (\<lambda>b.
             (filter_type = Some (str ''title'')
                \<and> lower (title b) = lower (the filter_value))
             \<or> (filter_type = Some (str ''tag'')
                \<and> lower (tag b) = lower (the filter_value)))
           (bookmarks m)
      else bookmarks m)"

definition list_bookmarks ::
  "manager \<Rightarrow> ustring option \<Rightarrow> ustring option \<Rightarrow> display \<times> manager" where
  "list_bookmarks m filter_type filter_value =
     (let shown = bookmarks_to_show m filter_type filter_value
      in if shown = [] then (NothingFound, m) else (Listing shown, m))"

datatype search_result = NoResult | FoundUrl ustring | FoundTitles "ustring list"

fun first_title_match :: "bookmark list \<Rightarrow> ustring \<Rightarrow> search_result" where
  "first_title_match [] q = NoResult"
| "first_title_match (b # bs) q =
     (if contains (lower (title b)) q then FoundUrl (url b) else first_title_match bs q)"

definition search_bookmarks ::
  "manager \<Rightarrow> ustring \<Rightarrow> ustring \<Rightarrow> (error + search_result) \<times> manager" where
  "search_bookmarks m query search_type =
     (if strip query = [] then (Inl EmptyQuery, m)
      else if search_type = str ''title''
        then (Inr (first_title_match (bookmarks m) (lower query)), m)
      else if search_type = str ''tag''
        then (Inr (FoundTitles
               (map title (filter (\<lambda>b. contains (lower (tag b)) (lower query))
                            (bookmarks m)))), m)
      else (Inr NoResult, m))"

definition marked_for_removal :: "bookmark list \<Rightarrow> bookmark \<Rightarrow> bool" where
  "marked_for_removal to_remove b \<longleftrightarrow>
     list_ex (\<lambda>r. lower (url b) = lower (url r)) to_remove"

text \<open>
  The records that \<open>delete_bookmark\<close> collects before it rebuilds the list. The positions
  come from the two find functions and are positions of the list (\<open>find_Some_bounds\<close>
  below for the url; the title positions are drawn from the positions of the list).
\<close>

definition bookmarks_to_remove :: "manager \<Rightarrow> ustring \<Rightarrow> ustring \<Rightarrow> bookmark list" where
  "bookmarks_to_remove m identifier delete_type =
     (if delete_type = str ''url''
      then (case find_bookmark_by_url (bookmarks m) identifier of
              None \<Rightarrow> []
            | Some i \<Rightarrow> [bookmarks m ! i])
      else if delete_type = str ''title''
      then map (\<lambda>i. bookmarks m ! i) (find_bookmarks_by_title (bookmarks m) identifier)
      else [])"

text \<open>
  \<open>delete_bookmark\<close>: the records to remove are found, every record whose url equals one
  of theirs (ignoring case) is left out of the new list, and the old list is put back when
  the save returns \<open>False\<close>. When the save raises, the exception leaves \<open>delete_bookmark\<close>
  and the new list stays.
\<close>

definition delete_bookmark ::
  "io_outcome \<Rightarrow> manager \<Rightarrow> disk \<Rightarrow> ustring \<Rightarrow> ustring
     \<Rightarrow> (error + bookmark list) \<times> manager \<times> disk" where
  "delete_bookmark io m d identifier delete_type =
     (if strip identifier = [] then (Inl EmptyIdentifier, m, d)
      else
        let to_remove = bookmarks_to_remove m identifier delete_type
        in if to_remove = [] then (Inl NotFound, m, d)
           else
             let new_bookmarks = filter (\<lambda>b. \<not> marked_for_removal to_remove b) (bookmarks m);
                 deleted_bookmarks_info = filter (marked_for_removal to_remove) (bookmarks m);
                 original_bookmarks = bookmarks m;
                 m1 = m\<lparr>bookmarks := new_bookmarks\<rparr>;
                 (saved, d1) = save_bookmarks io m1 d
             in case saved of
                  Saved \<Rightarrow> (Inr deleted_bookmarks_info, m1, d1)
                | SaveFailed \<Rightarrow> (Inl SaveFailure, m1\<lparr>bookmarks := original_bookmarks\<rparr>, d1)
                | SaveRaised \<Rightarrow> (Inl UnicodeEncodeError, m1, d1))"

definition list_tags :: "manager \<Rightarrow> ustring list option \<times> manager" where
  "list_tags m =
     (if bookmarks m = [] then (None, m)
      else (Some (sort (remdups (map tag (bookmarks m)))), m))"

definition list_titles :: "manager \<Rightarrow> ustring list option \<times> manager" where
  "list_titles m =
     (if bookmarks m = [] then (None, m)
      else (Some (sort (remdups (map title (bookmarks m)))), m))"

record stats =
  total_bookmarks :: nat
  unique_tags :: nat
  stats_data_file :: ustring
  tags_sorted :: "ustring list"

definition show_stats :: "manager \<Rightarrow> stats option \<times> manager" where
  "show_stats m =
     (if bookmarks m = [] then (None, m)
      else
        let tags = remdups (map tag (bookmarks m))
        in (Some \<lparr>total_bookmarks = length (bookmarks m),
                  unique_tags = length tags,
                  stats_data_file = data_file m,
                  tags_sorted = sort tags\<rparr>, m))"

section \<open>Command dispatcher\<close>

text \<open>
  The parsed command line: the sub-command with its arguments, \<open>None\<close> when no sub-command
  was given, and the value of the \<open>--file\<close> option.
\<close>

datatype command =
  CmdAdd ustring ustring ustring
  | CmdList "ustring option" "ustring option"
  | CmdSearch ustring bool
  | CmdDelete "ustring option" "ustring option"
  | CmdTags
  | CmdTitles
  | CmdStats

record args =
  command :: "command option"
  file_arg :: ustring

text \<open>
  The environment of one run: the home directory that \<open>expanduser\<close> returns, whether the
  backing file can be opened for reading, and what happens at the save.
\<close>

record env =
  home :: ustring
  read_ok :: bool
  save_io :: io_outcome

definition bookmarks_path :: "ustring \<Rightarrow> ustring" where
  "bookmarks_path h =
     (if h = [] \<or> last h = cp CHR ''/'' then h @ str ''.bookmarks.json''
      else h @ str ''/'' @ str ''.bookmarks.json'')"

text \<open>
  How a run ends. \<open>UnexpectedError\<close> is the handler of \<open>main\<close> for an exception that left
  a method: the message and exit status 1. \<open>Uncaught\<close> is an exception raised while the
  manager is constructed, before the handler is entered. \<open>OutsideModel\<close> marks a backing
  file whose value the model does not cover.
\<close>

datatype outcome =
  ShowHelp
  | Added "error + bookmark"
  | Listed display
  | Searched "error + search_result"
  | Deleted "error + bookmark list"
  | NoAction
  | TagList "ustring list option"
  | TitleList "ustring list option"
  | Statistics "stats option"
  | UnexpectedError
  | Uncaught
  | OutsideModel

definition execute :: "io_outcome \<Rightarrow> command \<Rightarrow> manager \<Rightarrow> disk \<Rightarrow> outcome \<times> manager \<times> disk" where
  "execute io c m d =
     (case c of
        CmdAdd u t g \<Rightarrow>
          (let (r, m1, d1) = add_bookmark io m d u t g in (Added r, m1, d1))
      | CmdList title_opt tag_opt \<Rightarrow>
          (let (r, m1) =
                 (if truthy title_opt then list_bookmarks m (Some (str ''title'')) title_opt
                  else if truthy tag_opt then list_bookmarks m (Some (str ''tag'')) tag_opt
                  else list_bookmarks m None None)
           in (Listed r, m1, d))
      | CmdSearch query by_tag \<Rightarrow>
          (let (r, m1) = search_bookmarks m query (if by_tag then str ''tag'' else str ''title'')
           in (Searched r, m1, d))
      | CmdDelete url_opt title_opt \<Rightarrow>
          (if truthy url_opt then
             (let (r, m1, d1) = delete_bookmark io m d (the url_opt) (str ''url'')
              in (Deleted r, m1, d1))
           else if truthy title_opt then
             (let (r, m1, d1) = delete_bookmark io m d (the title_opt) (str ''title'')
              in (Deleted r, m1, d1))
           else (NoAction, m, d))
      | CmdTags \<Rightarrow> (let (r, m1) = list_tags m in (TagList r, m1, d))
      | CmdTitles \<Rightarrow> (let (r, m1) = list_titles m in (TitleList r, m1, d))
      | CmdStats \<Rightarrow> (let (r, m1) = show_stats m in (Statistics r, m1, d)))"

definition raised :: "outcome \<Rightarrow> bool" where
  "raised r \<longleftrightarrow> r = Added (Inl UnicodeEncodeError) \<or> r = Deleted (Inl UnicodeEncodeError)"

definition main :: "env \<Rightarrow> args \<Rightarrow> disk \<Rightarrow> outcome \<times> disk" where
  "main e a d =
     (case command a of
        None \<Rightarrow> (ShowHelp, d)
      | Some c \<Rightarrow>
          (case load_bookmarks (read_ok e) (bookmarks_path (home e)) d of
             LoadRaised \<Rightarrow> (Uncaught, d)
           | NotCovered \<Rightarrow> (OutsideModel, d)
           | Loaded bs \<Rightarrow>
               (let m = \<lparr>data_file = bookmarks_path (home e), bookmarks = bs\<rparr>;
                    (r, m1, d1) = execute (save_io e) c m d
                in (if raised r then UnexpectedError else r, d1))))"

section \<open>Sequences of mutations and the uniqueness of urls\<close>

definition url_unique :: "bookmark list \<Rightarrow> bool" where
  "url_unique bs \<longleftrightarrow> distinct (map (\<lambda>b. lower (url b)) bs)"

datatype operation = OpAdd ustring ustring ustring | OpDelete ustring ustring

fun apply_operation ::
  "io_outcome \<times> operation \<Rightarrow> manager \<times> disk \<Rightarrow> manager \<times> disk" where
  "apply_operation (io, OpAdd u t g) (m, d) = snd (add_bookmark io m d u t g)"
| "apply_operation (io, OpDelete i ty) (m, d) = snd (delete_bookmark io m d i ty)"

definition run ::
  "(io_outcome \<times> operation) list \<Rightarrow> manager \<times> disk \<Rightarrow> manager \<times> disk" where
  "run ops s = fold apply_operation ops s"

section \<open>Example data\<close>

definition the_file :: ustring where
  "the_file = str ''/home/user/.bookmarks.json''"

definition empty_manager :: manager where
  "empty_manager = \<lparr>data_file = the_file, bookmarks = []\<rparr>"

definition site :: "string \<Rightarrow> string \<Rightarrow> string \<Rightarrow> bookmark" where
  "site u t g = \<lparr>url = str u, title = str t, tag = str g, members = Url_Title_Tag\<rparr>"

definition example_site :: bookmark where
  "example_site = site ''https://example.com/'' ''Example A'' ''web''"

definition docs_site :: bookmark where
  "docs_site = site ''https://docs.example.org/'' ''Example B'' ''dev tools''"

definition two_sites :: manager where
  "two_sites = \<lparr>data_file = the_file, bookmarks = [example_site, docs_site]\<rparr>"

definition three_tags :: manager where
  "three_tags =
     \<lparr>data_file = the_file,
      bookmarks = [site ''https://one.example/'' ''One'' ''b'',
                   site ''https://two.example/'' ''Two'' ''a'',
                   site ''https://three.example/'' ''Three'' ''B'']\<rparr>"

definition dev_sites :: manager where
  "dev_sites =
     \<lparr>data_file = the_file,
      bookmarks = [site ''https://git.example/'' ''Git'' ''Development'',
                   site ''https://news.example/'' ''News'' ''reading'',
                   site ''https://make.example/'' ''Make'' ''development tools'']\<rparr>"

text \<open>
  A record whose title is the lone surrogate \<open>U+DCFF\<close>, as the command line gives it for
  the byte \<open>0xFF\<close> and as the escape \<open>\udcff\<close> in the backing file decodes.
\<close>

definition odd_site :: bookmark where
  "odd_site = \<lparr>url = str ''https://odd.example/'', title = [0xDCFF], tag = str ''misc'',
                members = Url_Title_Tag\<rparr>"

definition odd_sites :: manager where
  "odd_sites = \<lparr>data_file = the_file, bookmarks = [example_site, odd_site]\<rparr>"

definition odd_only :: manager where
  "odd_only = \<lparr>data_file = the_file, bookmarks = [odd_site]\<rparr>"

definition saved_disk :: disk where
  "saved_disk = [the_file \<mapsto> json_dumps [example_site, docs_site]]"

definition user_env :: env where
  "user_env = \<lparr>home = str ''/home/user'', read_ok = True, save_io = IoSuccess\<rparr>"

section \<open>Text that the codec accepts\<close>

lemma encodable_Nil: "encodable []"
  by (simp add: encodable_def)

lemma encodable_Cons: "encodable (c # s) \<longleftrightarrow> (c < 0xD800 \<or> 0xDFFF < c) \<and> encodable s"
  by (simp add: encodable_def)

lemma encodable_append: "encodable (s @ t) \<longleftrightarrow> encodable s \<and> encodable t"
  by (simp add: encodable_def)

lemma encodable_concat: "encodable (concat chunks) \<longleftrightarrow> list_all encodable chunks"
  by (induction chunks) (simp_all add: encodable_Nil encodable_append)

lemma encodable_str: "encodable (str s)"
proof -
  have "(of_char c :: nat) < 0xD800" for c
  proof -
    have "(of_char c :: nat) < 256" by (rule nat_of_char_less_256)
    then show ?thesis by linarith
  qed
  then show ?thesis by (simp add: encodable_def str_def list_all_iff)
qed

lemma encodable_replicate: "c < 0xD800 \<Longrightarrow> encodable (replicate n c)"
  by (simp add: encodable_def list_all_iff)

lemma encodable_newline_indent: "encodable (newline_indent n)"
  by (simp add: newline_indent_def encodable_Cons encodable_replicate)

lemma hex_digits_small: "k < 16 \<Longrightarrow> hex_digits ! k < 0x80"
proof -
  have "\<forall>k<16. hex_digits ! k < 0x80"
    by (simp add: hex_digits_def str_def All_less_Suc eval_nat_numeral)
  then show "k < 16 \<Longrightarrow> hex_digits ! k < 0x80" by blast
qed

lemma encodable_escape_char: "encodable (escape_char c) \<longleftrightarrow> c < 0xD800 \<or> 0xDFFF < c"
proof (cases "c < 0x20")
  case True
  then have "c div 16 < 16" "c mod 16 < 16" by simp_all
  then have "hex_digits ! (c div 16) < 0x80" "hex_digits ! (c mod 16) < 0x80"
    by (simp_all add: hex_digits_small)
  with True show ?thesis
    by (simp add: escape_char_def encodable_Cons encodable_Nil)
next
  case False
  then show ?thesis
    by (simp add: escape_char_def encodable_Cons encodable_Nil)
qed

lemma encodable_escaped: "encodable (concat (map escape_char s)) \<longleftrightarrow> encodable s"
  by (induction s) (simp_all add: encodable_Nil encodable_append encodable_escape_char encodable_Cons)

lemma encodable_encode_string: "encodable (encode_string s) \<longleftrightarrow> encodable s"
  by (simp add: encode_string_def encodable_Cons encodable_append encodable_escaped encodable_Nil)

lemma encodable_member_name: "encodable (member_name k)"
  by (cases k) (simp_all add: member_name_def encodable_str)

lemma encodable_member_chunks:
  "list_all encodable (member_chunks b k) \<longleftrightarrow> encodable (member_value b k)"
  by (simp add: member_chunks_def encodable_encode_string encodable_member_name encodable_str)

lemma encodable_bookmark_chunks:
  "list_all encodable (bookmark_chunks b) \<longleftrightarrow> fields_encodable b"
  by (cases "members b")
    (auto simp: bookmark_chunks_def members_in_def encodable_member_chunks member_value_def
      encodable_Cons encodable_newline_indent encodable_str fields_encodable_def)

lemma encodable_items_chunks:
  "list_all encodable (items_chunks bs) \<longleftrightarrow> list_all fields_encodable bs"
  by (induction bs rule: items_chunks.induct)
    (simp_all add: encodable_bookmark_chunks encodable_Cons encodable_newline_indent)

lemma encodable_json_chunks:
  "list_all encodable (json_chunks bs) \<longleftrightarrow> list_all fields_encodable bs"
  by (simp add: json_chunks_def encodable_items_chunks encodable_Cons encodable_newline_indent
      encodable_str)

lemma encodable_handed_to_file: "encodable (handed_to_file bs)"
proof -
  have "list_all encodable (takeWhile encodable chunks)" for chunks :: "ustring list"
    by (induction chunks) simp_all
  then show ?thesis by (simp add: handed_to_file_def encodable_concat)
qed

lemma handed_to_file_all:
  assumes "list_all fields_encodable bs"
  shows "handed_to_file bs = json_dumps bs"
proof -
  have tw: "list_all P xs \<Longrightarrow> takeWhile P xs = xs" for P and xs :: "ustring list"
    by (induction xs) simp_all
  have "list_all encodable (json_chunks bs)"
    using assms by (simp add: encodable_json_chunks)
  then have "takeWhile encodable (json_chunks bs) = json_chunks bs" by (rule tw)
  then show ?thesis
    unfolding handed_to_file_def json_dumps_def by (rule arg_cong)
qed

section \<open>The decoder reads what the encoder wrote\<close>

lemma hex_digit_value: "k < 16 \<Longrightarrow> hex_value (hex_digits ! k) = Some k"
proof -
  have "\<forall>k<16. hex_value (hex_digits ! k) = Some k"
    by (simp add: hex_value_def hex_digits_def str_def All_less_Suc eval_nat_numeral)
  then show "k < 16 \<Longrightarrow> hex_value (hex_digits ! k) = Some k" by blast
qed

lemma hex_zero: "hex_value (cp CHR ''0'') = Some 0"
  by (simp add: hex_value_def str_def)

lemma decode_control:
  assumes "c < 0x20"
  shows "decode_u4 [cp CHR ''0'', cp CHR ''0'', hex_digits ! (c div 16), hex_digits ! (c mod 16)]
         = Some c"
proof -
  have "c div 16 < 16" using assms by simp
  then show ?thesis
    using hex_zero by (simp add: decode_u4_def hex_digit_value)
qed

lemma scanstring_escape_char:
  "scanstring (escape_char c @ r) = push c (scanstring r)"
proof -
  consider "c = 0x22" | "c = 0x5C" | "c = 0x0A" | "c = 0x0D" | "c = 0x09"
    | "c = 0x08" | "c = 0x0C"
    | "c \<notin> set [0x22, 0x5C, 0x0A, 0x0D, 0x09, 0x08, 0x0C]" "c < 0x20"
    | "c \<notin> set [0x22, 0x5C, 0x0A, 0x0D, 0x09, 0x08, 0x0C]" "\<not> c < 0x20"
    by auto
  then show ?thesis
  proof cases
    case 8
    then have small: "\<not> 0xD800 \<le> c" by simp
    have d: "decode_u4 [48, 48, hex_digits ! (c div 16), hex_digits ! (c mod 16)] = Some c"
      using decode_control[OF 8(2)] by simp
    show ?thesis using 8 d small
      by (simp add: escape_char_def)
  next
    case 9
    then show ?thesis by (simp add: escape_char_def)
  qed (simp_all add: escape_char_def simple_escape_def)
qed

lemma scanstring_escaped:
  "scanstring (concat (map escape_char s) @ 0x22 # r) = Some (s, r)"
  by (induction s) (simp_all add: scanstring_escape_char push_def)

lemma skip_ws_newline_indent:
  "\<not> is_json_ws c \<Longrightarrow> skip_ws (newline_indent n @ c # r) = c # r"
  by (simp add: skip_ws_def newline_indent_def is_json_ws_def dropWhile_append)

lemma skip_ws_id: "\<not> is_json_ws c \<Longrightarrow> skip_ws (c # r) = c # r"
  by (simp add: skip_ws_def)

lemma skip_ws_space: "skip_ws (0x20 # r) = skip_ws r"
  by (simp add: skip_ws_def is_json_ws_def)

lemma not_ws: "\<not> is_json_ws 0x22" "\<not> is_json_ws 0x3A" "\<not> is_json_ws 0x2C"
  "\<not> is_json_ws 0x7B" "\<not> is_json_ws 0x7D" "\<not> is_json_ws 0x5B"
  "\<not> is_json_ws 0x5D"
  by (simp_all add: is_json_ws_def)

lemma parse_string_value:
  "parse_value (Suc n) (encode_string s @ r) = Some (JString s, r)"
  by (simp add: encode_string_def scanstring_escaped)

lemma skip_ws_encode_string: "skip_ws (encode_string s @ r) = encode_string s @ r"
  by (simp add: encode_string_def skip_ws_id not_ws)

lemma parse_last_member:
  "parse_object_items (Suc (Suc n))
     (concat (map escape_char k) @ 0x22 # 0x3A # 0x20 # encode_string v
        @ newline_indent 1 @ 0x7D # r)
   = Some ([(k, JString v)], r)"
  by (simp add: scanstring_escaped skip_ws_id skip_ws_space not_ws parse_string_value
      skip_ws_newline_indent skip_ws_encode_string del: parse_value.simps)

lemma parse_inner_member:
  assumes "parse_object_items n rest = Some (kvs, r)"
  shows "parse_object_items (Suc n)
     (concat (map escape_char k) @ 0x22 # 0x3A # 0x20 # encode_string v
        @ 0x2C # newline_indent 2 @ 0x22 # rest)
   = Some ((k, JString v) # kvs, r)"
proof -
  obtain n' where n: "n = Suc n'"
    using assms by (cases n) simp_all
  have pv: "parse_value n (encode_string v @ r') = Some (JString v, r')" for r'
    unfolding n by (rule parse_string_value)
  show ?thesis
    using assms
    by (simp add: scanstring_escaped skip_ws_id skip_ws_space not_ws pv
        skip_ws_newline_indent skip_ws_encode_string)
qed

lemma parse_object_open:
  assumes "parse_object_items n rest = Some (kvs, r)"
  shows "parse_value (Suc n) (0x7B # newline_indent 2 @ 0x22 # rest)
         = Some (JObject kvs, r)"
  using assms by (simp add: skip_ws_newline_indent not_ws)

lemma members_in_three: "\<exists>k1 k2 k3. members_in ord = [k1, k2, k3]"
  by (cases ord) (simp_all add: members_in_def)

lemma parse_bookmark:
  "parse_value (Suc (Suc (Suc (Suc (Suc n))))) (concat (bookmark_chunks b) @ r)
   = Some (json_of_bookmark b, r)"
proof -
  obtain k1 k2 k3 where ks: "members_in (members b) = [k1, k2, k3]"
    using members_in_three by blast
  let ?v = "member_value b"
  have third: "parse_object_items (Suc (Suc n))
      (concat (map escape_char (member_name k3)) @ 0x22 # 0x3A # 0x20 # encode_string (?v k3)
        @ newline_indent 1 @ 0x7D # r)
      = Some ([(member_name k3, JString (?v k3))], r)"
    by (rule parse_last_member)
  note second = parse_inner_member[OF third, where k = "member_name k2" and v = "?v k2"]
  note first = parse_inner_member[OF second, where k = "member_name k1" and v = "?v k1"]
  have shape: "concat (bookmark_chunks b) @ r
      = 0x7B # newline_indent 2 @ 0x22 #
         (concat (map escape_char (member_name k1)) @ 0x22 # 0x3A # 0x20 # encode_string (?v k1)
           @ 0x2C # newline_indent 2 @ 0x22 #
           (concat (map escape_char (member_name k2)) @ 0x22 # 0x3A # 0x20 # encode_string (?v k2)
             @ 0x2C # newline_indent 2 @ 0x22 #
             (concat (map escape_char (member_name k3)) @ 0x22 # 0x3A # 0x20
               # encode_string (?v k3) @ newline_indent 1 @ 0x7D # r)))"
    by (simp add: bookmark_chunks_def ks member_chunks_def str_def)
      (simp add: encode_string_def)
  have json: "json_of_bookmark b
      = JObject [(member_name k1, JString (?v k1)), (member_name k2, JString (?v k2)),
                 (member_name k3, JString (?v k3))]"
    by (simp add: json_of_bookmark_def ks)
  show ?thesis
    unfolding shape json
    by (rule parse_object_open[OF first])
qed

section \<open>The items of a list\<close>

lemma items_text_simps:
  "items_text [b] = concat (bookmark_chunks b)"
  "items_text (b # b' # bs)
     = concat (bookmark_chunks b) @ 0x2C # newline_indent 1 @ items_text (b' # bs)"
  by (simp_all add: items_text_def)

lemma bookmark_text_starts: "\<exists>r. concat (bookmark_chunks b) = 0x7B # r"
  by (simp add: bookmark_chunks_def str_def)

lemma items_text_starts: "bs \<noteq> [] \<Longrightarrow> \<exists>r. items_text bs = 0x7B # r"
proof (cases bs)
  case Nil
  then show "bs \<noteq> [] \<Longrightarrow> ?thesis" by simp
next
  case (Cons b bs')
  obtain r where "concat (bookmark_chunks b) = 0x7B # r"
    using bookmark_text_starts by blast
  with Cons show ?thesis
    by (cases bs') (simp_all add: items_text_def)
qed

lemma skip_ws_before_items:
  assumes "bs \<noteq> []"
  shows "skip_ws (newline_indent n @ items_text bs @ r) = items_text bs @ r"
proof -
  obtain r' where "items_text bs = 0x7B # r'"
    using items_text_starts[OF assms] by blast
  then show ?thesis by (simp add: skip_ws_newline_indent not_ws)
qed

lemma array_last:
  assumes "parse_value n s = Some (v, newline_indent 0 @ 0x5D # r)"
  shows "parse_array_items (Suc n) s = Some ([v], r)"
  using assms by (simp add: skip_ws_newline_indent not_ws)

lemma array_more:
  assumes "parse_value n s = Some (v, 0x2C # s')"
    and "parse_array_items n (skip_ws s') = Some (vs, r)"
  shows "parse_array_items (Suc n) s = Some (v # vs, r)"
  using assms by (simp add: skip_ws_id not_ws)

lemma parse_bookmark_fuel:
  assumes "5 \<le> n"
  shows "parse_value n (concat (bookmark_chunks b) @ r) = Some (json_of_bookmark b, r)"
proof -
  obtain k where "n = 5 + k" using assms by (auto simp: le_iff_add)
  then have "n = Suc (Suc (Suc (Suc (Suc k))))" by simp
  then show ?thesis by (simp only: parse_bookmark)
qed

lemma parse_items:
  "bs \<noteq> [] \<Longrightarrow> length bs + 5 \<le> n
     \<Longrightarrow> parse_array_items n (items_text bs @ newline_indent 0 @ 0x5D # r)
         = Some (map json_of_bookmark bs, r)"
proof (induction bs arbitrary: n rule: items_chunks.induct)
  case 1
  then show ?case by simp
next
  case (2 b)
  then obtain k where n: "n = Suc k" and k: "5 \<le> k"
    by (cases n) simp_all
  have "parse_value k (concat (bookmark_chunks b) @ newline_indent 0 @ 0x5D # r)
        = Some (json_of_bookmark b, newline_indent 0 @ 0x5D # r)"
    by (rule parse_bookmark_fuel[OF k])
  from array_last[OF this] show ?case by (simp add: n items_text_simps)
next
  case (3 b b' bs)
  from 3(3) obtain k where n: "n = Suc k" and k: "length (b' # bs) + 5 \<le> k"
    by (cases n) simp_all
  then have k5: "5 \<le> k" by simp
  let ?tail = "items_text (b' # bs) @ newline_indent 0 @ 0x5D # r"
  have first: "parse_value k (concat (bookmark_chunks b) @ 0x2C # newline_indent 1 @ ?tail)
        = Some (json_of_bookmark b, 0x2C # newline_indent 1 @ ?tail)"
    by (rule parse_bookmark_fuel[OF k5])
  have sk: "skip_ws (newline_indent 1 @ ?tail) = ?tail"
    by (rule skip_ws_before_items) simp
  have rest: "parse_array_items k (skip_ws (newline_indent 1 @ ?tail))
        = Some (map json_of_bookmark (b' # bs), r)"
    unfolding sk using 3(1)[OF _ k] by simp
  have shape: "items_text (b # b' # bs) @ newline_indent 0 @ 0x5D # r
        = concat (bookmark_chunks b) @ 0x2C # newline_indent 1 @ ?tail"
    by (simp add: items_text_simps)
  show ?case
    unfolding n shape using array_more[OF first rest] by simp
qed

section \<open>The whole text\<close>

lemma length_items_text: "length bs \<le> length (items_text bs)"
proof (induction bs rule: items_chunks.induct)
  case 1
  show ?case by simp
next
  case (2 b)
  obtain r where "concat (bookmark_chunks b) = 0x7B # r"
    using bookmark_text_starts by blast
  then show ?case by (simp add: items_text_simps)
next
  case (3 b b' bs)
  obtain r where "concat (bookmark_chunks b) = 0x7B # r"
    using bookmark_text_starts by blast
  with 3 show ?case by (simp add: items_text_simps)
qed

lemma array_open:
  assumes "skip_ws s = 0x7B # s'"
    and "parse_array_items n (0x7B # s') = Some (vs, r)"
  shows "parse_value (Suc n) (0x5B # s) = Some (JArray vs, r)"
  using assms by simp

lemma json_dumps_shape:
  "bs \<noteq> [] \<Longrightarrow> json_dumps bs = 0x5B # newline_indent 1 @ items_text bs @ newline_indent 0 @ [0x5D]"
  by (simp add: json_dumps_def json_chunks_def items_text_def str_def)

lemma no_byte_order_mark: "take 1 (json_dumps bs) \<noteq> [0xFEFF]"
  by (cases "bs = []") (simp_all add: json_dumps_shape, simp add: json_dumps_def json_chunks_def str_def)

lemma json_loads_dumps:
  "json_loads (json_dumps bs) = Some (JArray (map json_of_bookmark bs))"
proof (cases "bs = []")
  case True
  have d: "json_dumps [] = [0x5B, 0x5D]"
    by (simp add: json_dumps_def json_chunks_def str_def)
  have "parse_value (Suc n) [0x5B, 0x5D] = Some (JArray [], [])" for n
    by (simp add: skip_ws_def is_json_ws_def)
  from this[of 4] have "parse_value 5 [0x5B, 0x5D] = Some (JArray [], [])" by simp
  then show ?thesis
    by (simp add: True json_loads_def d skip_ws_def is_json_ws_def)
next
  case False
  let ?dumped = "json_dumps bs"
  note dumped = json_dumps_shape[OF False]
  have "length bs + 5 \<le> 2 * length ?dumped"
    using length_items_text[of bs] by (simp add: dumped newline_indent_def)
  then have items: "parse_array_items (2 * length ?dumped)
      (items_text bs @ newline_indent 0 @ 0x5D # []) = Some (map json_of_bookmark bs, [])"
    by (rule parse_items[OF False])
  obtain r' where st: "items_text bs = 0x7B # r'"
    using items_text_starts[OF False] by blast
  let ?tail = "items_text bs @ newline_indent 0 @ 0x5D # []"
  have sk: "skip_ws (newline_indent 1 @ ?tail) = 0x7B # r' @ newline_indent 0 @ 0x5D # []"
    using skip_ws_before_items[OF False, of 1 "newline_indent 0 @ 0x5D # []"] st by simp
  have items': "parse_array_items (2 * length ?dumped)
      (0x7B # r' @ newline_indent 0 @ 0x5D # []) = Some (map json_of_bookmark bs, [])"
    using items st by simp
  have whole: "parse_value (Suc (2 * length ?dumped)) (0x5B # newline_indent 1 @ ?tail)
      = Some (JArray (map json_of_bookmark bs), [])"
    by (rule array_open[OF sk items'])
  have "skip_ws ?dumped = ?dumped" by (simp add: dumped skip_ws_id not_ws)
  then have "parse_value (Suc (2 * length ?dumped)) (skip_ws ?dumped)
      = Some (JArray (map json_of_bookmark bs), [])"
    using whole dumped by simp
  then show ?thesis
    using no_byte_order_mark[of bs] by (simp add: json_loads_def skip_ws_def)
qed

section \<open>From the decoded value to the collection\<close>

lemma member_names_differ:
  "member_name k = member_name k' \<longleftrightarrow> k = k'"
  by (cases k; cases k') (simp_all add: member_name_def str_def)

lemma to_bookmark_json_of: "to_bookmark (json_of_bookmark b) = Some b"
  by (cases "members b")
    (simp_all add: to_bookmark_def json_of_bookmark_def members_in_def member_value_def
      member_name_def str_def first_occurrences_def order_of_def Let_def)

lemma to_bookmarks_json_of: "to_bookmarks (JArray (map json_of_bookmark bs)) = Some bs"
  by (induction bs) (simp_all add: to_bookmarks_def to_bookmark_json_of)

lemma load_after_save:
  assumes "list_all fields_encodable (bookmarks m)"
  shows "save_bookmarks IoSuccess m d
         = (Saved, d(data_file m \<mapsto> json_dumps (bookmarks m)))"
    and "load_bookmarks True (data_file m) (d(data_file m \<mapsto> json_dumps (bookmarks m)))
         = Loaded (bookmarks m)"
proof -
  have chunks: "list_all encodable (json_chunks (bookmarks m))"
    using assms by (simp add: encodable_json_chunks)
  then show "save_bookmarks IoSuccess m d
         = (Saved, d(data_file m \<mapsto> json_dumps (bookmarks m)))"
    by (simp add: save_bookmarks_def)
  have "encodable (json_dumps (bookmarks m))"
    using chunks by (simp add: json_dumps_def encodable_concat)
  then show "load_bookmarks True (data_file m) (d(data_file m \<mapsto> json_dumps (bookmarks m)))
         = Loaded (bookmarks m)"
    by (simp add: load_bookmarks_def json_loads_dumps to_bookmarks_json_of)
qed

section \<open>The fuel of the decoder\<close>

text \<open>
  Every successful parse consumes at least one character, so twice the length of the text
  plus one is fuel enough: with more fuel the decoder returns the same result. A result
  \<open>None\<close> of \<open>json_loads\<close> is therefore an error of the text, never a lack of fuel.
\<close>

lemma skip_ws_length: "length (skip_ws s) \<le> length s"
  by (simp add: skip_ws_def length_dropWhile_le)

lemma push_Some: "push x p = Some (xs, r) \<Longrightarrow> \<exists>ys. p = Some (ys, r)"
  by (auto simp: push_def split: option.splits)

lemma scanstring_shorter: "scanstring s = Some (x, r) \<Longrightarrow> length r < length s"
proof (induction s arbitrary: x r rule: length_induct)
  case (1 s)
  have ih: "scanstring t = Some (y, r) \<Longrightarrow> length t < length s \<Longrightarrow> length r < length s" for t y
    using 1(1) by (meson less_trans)
  show ?case
  proof (cases s)
    case Nil
    with 1(2) show ?thesis by simp
  next
    case (Cons c cs)
    show ?thesis
    proof (cases cs)
      case Nil
      with Cons 1(2) show ?thesis
        by (auto split: if_splits dest!: push_Some)
    next
      case (Cons e rr)
      have l1: "length cs < length s" "length rr < length s" "length (drop 4 rr) < length s"
        "length (drop 10 rr) < length s"
        using \<open>s = c # cs\<close> Cons by simp_all
      show ?thesis
        using 1(2) \<open>s = c # cs\<close> Cons
          ih[OF _ l1(1)] ih[OF _ l1(2)] ih[OF _ l1(3)] ih[OF _ l1(4)]
        by (auto split: if_splits option.splits dest!: push_Some)
    qed
  qed
qed


lemma match_fraction_length: "length (snd (match_fraction s)) \<le> length s"
  by (auto simp: match_fraction_def length_dropWhile_le le_SucI split: list.splits)

lemma match_exponent_length: "length (snd (match_exponent s)) \<le> length s"
  by (auto simp: match_exponent_def Let_def le_SucI split: list.splits
      intro: order_trans[OF length_dropWhile_le])

lemma match_number_shorter:
  assumes "match_number s = Some (lx, r)"
  shows "length r < length s"
proof -
  let ?sign = "if take 1 s = str ''-'' then str ''-'' else []"
  obtain c rr where s1: "drop (length ?sign) s = c # rr"
    using assms by (auto simp: match_number_def Let_def split: list.splits)
  let ?ds = "if c = cp CHR ''0'' then [] else takeWhile is_digit rr"
  have r: "r = snd (match_exponent (snd (match_fraction (drop (length ?ds) rr))))"
    using assms s1
    by (auto simp: match_number_def Let_def split_beta split: list.splits if_splits)
  have "length r \<le> length (drop (length ?ds) rr)"
    unfolding r
    by (rule order_trans[OF match_exponent_length match_fraction_length])
  also have "\<dots> \<le> length rr" by simp
  also have "\<dots> < length (drop (length ?sign) s)"
    by (simp only: s1 length_Cons lessI)
  also have "\<dots> \<le> length s" by simp
  finally show ?thesis .
qed

lemma scan_literal_shorter:
  assumes "scan_literal s = Some (v, r)"
  shows "length r < length s"
  using assms
  by (auto simp: scan_literal_def prefix_def str_def split: if_splits option.splits
      dest: match_number_shorter)

lemma parse_shorter:
  "(parse_value n s = Some (v, r) \<longrightarrow> length r < length s)
   \<and> (parse_array_items n s = Some (vs, r) \<longrightarrow> length r < length s)
   \<and> (parse_object_items n s = Some (kvs, r) \<longrightarrow> length r < length s)"
proof (induction n arbitrary: s v vs kvs r)
  case 0
  show ?case by simp
next
  case (Suc n)
  have sk: "skip_ws t = c # t' \<Longrightarrow> length t' < length t" for t c t'
    using skip_ws_length[of t] by simp
  have pv: "parse_value n t = Some (w, t') \<Longrightarrow> length t' < length t" for t w t'
    using Suc by blast
  have pa: "parse_array_items n t = Some (ws, t') \<Longrightarrow> length t' < length t" for t ws t'
    using Suc by blast
  have po: "parse_object_items n t = Some (ws, t') \<Longrightarrow> length t' < length t" for t ws t'
    using Suc by blast
  have one: "length r < length s" if "parse_value (Suc n) s = Some (v, r)"
    using that
    by (auto split: list.splits if_splits option.splits
        dest!: scanstring_shorter scan_literal_shorter sk pa po)
  have two: "length r < length s" if "parse_array_items (Suc n) s = Some (vs, r)"
    using that skip_ws_length
    by (auto split: list.splits if_splits option.splits dest!: pv sk pa)
      (meson le_less_trans less_trans skip_ws_length)+
  have three: "length r < length s" if "parse_object_items (Suc n) s = Some (kvs, r)"
    using that
    by (auto split: list.splits if_splits option.splits
        dest!: scanstring_shorter pv sk po)
      (meson le_less_trans less_trans skip_ws_length)+
  show ?case using one two three by blast
qed


lemma value_cong:
  assumes "\<And>c cs c1 r1. s = c # cs \<Longrightarrow> skip_ws cs = c1 # r1
             \<Longrightarrow> parse_object_items m r1 = parse_object_items m' r1"
    and "\<And>c cs c1 r1. s = c # cs \<Longrightarrow> skip_ws cs = c1 # r1
             \<Longrightarrow> parse_array_items m (c1 # r1) = parse_array_items m' (c1 # r1)"
  shows "parse_value (Suc m) s = parse_value (Suc m') s"
proof (cases s)
  case Nil
  then show ?thesis by simp
next
  case (Cons c cs)
  show ?thesis
  proof (cases "skip_ws cs")
    case Nil
    with Cons show ?thesis by simp
  next
    case inner: (Cons c1 r1)
    show ?thesis
      using assms(1)[OF Cons inner] assms(2)[OF Cons inner] Cons inner by simp
  qed
qed

lemma array_cong:
  assumes "parse_value m s = parse_value m' s"
    and "\<And>v r c r1. parse_value m' s = Some (v, r) \<Longrightarrow> skip_ws r = c # r1
             \<Longrightarrow> parse_array_items m (skip_ws r1) = parse_array_items m' (skip_ws r1)"
  shows "parse_array_items (Suc m) s = parse_array_items (Suc m') s"
proof (cases "parse_value m' s")
  case None
  with assms(1) show ?thesis by simp
next
  case (Some p)
  obtain v r where p: "p = (v, r)" by (cases p)
  show ?thesis
  proof (cases "skip_ws r")
    case Nil
    with Some p assms(1) show ?thesis by simp
  next
    case (Cons c r1)
    show ?thesis
      using assms(2)[OF Some[unfolded p] Cons] Some p Cons assms(1) by simp
  qed
qed

lemma object_cong:
  assumes "\<And>k r c r1. scanstring s = Some (k, r) \<Longrightarrow> skip_ws r = c # r1
             \<Longrightarrow> parse_value m (skip_ws r1) = parse_value m' (skip_ws r1)"
    and "\<And>k r c r1 v r2 c2 r3 c3 r4. scanstring s = Some (k, r) \<Longrightarrow> skip_ws r = c # r1
             \<Longrightarrow> parse_value m' (skip_ws r1) = Some (v, r2) \<Longrightarrow> skip_ws r2 = c2 # r3
             \<Longrightarrow> skip_ws r3 = c3 # r4
             \<Longrightarrow> parse_object_items m r4 = parse_object_items m' r4"
  shows "parse_object_items (Suc m) s = parse_object_items (Suc m') s"
proof (cases "scanstring s")
  case None
  then show ?thesis by simp
next
  case (Some p)
  obtain k r where p: "p = (k, r)" by (cases p)
  note sc = Some[unfolded p]
  show ?thesis
  proof (cases "skip_ws r")
    case Nil
    with sc show ?thesis by simp
  next
    case c1: (Cons c r1)
    note pv = assms(1)[OF sc c1]
    show ?thesis
    proof (cases "parse_value m' (skip_ws r1)")
      case None
      with sc c1 pv show ?thesis by simp
    next
      case (Some q)
      obtain v r2 where q: "q = (v, r2)" by (cases q)
      note val = Some[unfolded q]
      show ?thesis
      proof (cases "skip_ws r2")
        case Nil
        with sc c1 pv val show ?thesis by simp
      next
        case c2: (Cons c2 r3)
        show ?thesis
        proof (cases "skip_ws r3")
          case Nil
          with sc c1 pv val c2 show ?thesis by simp
        next
          case c3: (Cons c3 r4)
          show ?thesis
            using assms(2)[OF sc c1 val c2 c3] sc c1 pv val c2 c3 by simp
        qed
      qed
    qed
  qed
qed

lemma fuel_step:
  "(2 * length s + 1 \<le> n \<longrightarrow> parse_value (Suc n) s = parse_value n s)
   \<and> (2 * length s + 2 \<le> n \<longrightarrow> parse_array_items (Suc n) s = parse_array_items n s)
   \<and> (2 * length s + 2 \<le> n \<longrightarrow> parse_object_items (Suc n) s = parse_object_items n s)"
proof (induction n arbitrary: s)
  case 0
  show ?case by simp
next
  case (Suc n)
  have pv: "parse_value (Suc n) t = parse_value n t" if "2 * length t + 1 \<le> n" for t
    using Suc that by blast
  have pa: "parse_array_items (Suc n) t = parse_array_items n t" if "2 * length t + 2 \<le> n" for t
    using Suc that by blast
  have po: "parse_object_items (Suc n) t = parse_object_items n t" if "2 * length t + 2 \<le> n" for t
    using Suc that by blast
  have sk: "skip_ws t = c # t' \<Longrightarrow> length t' < length t" for t c t'
    using skip_ws_length[of t] by simp
  have one: "parse_value (Suc (Suc n)) s = parse_value (Suc n) s" if b: "2 * length s + 1 \<le> Suc n"
  proof (rule value_cong)
    fix c cs c1 r1 assume "s = c # cs" "skip_ws cs = c1 # r1"
    then have "length r1 + 2 \<le> length s" using sk[of cs c1 r1] by simp
    then show "parse_object_items (Suc n) r1 = parse_object_items n r1"
      using b by (intro po) simp
  next
    fix c cs c1 r1 assume "s = c # cs" "skip_ws cs = c1 # r1"
    then have "length (c1 # r1) + 1 \<le> length s" using skip_ws_length[of cs] by simp
    then show "parse_array_items (Suc n) (c1 # r1) = parse_array_items n (c1 # r1)"
      using b by (intro pa) simp
  qed
  have two: "parse_array_items (Suc (Suc n)) s = parse_array_items (Suc n) s"
    if b: "2 * length s + 2 \<le> Suc n"
  proof (rule array_cong)
    show "parse_value (Suc n) s = parse_value n s" using b by (intro pv) simp
  next
    fix v r c r1 assume "parse_value n s = Some (v, r)" "skip_ws r = c # r1"
    then have "length r < length s" "length r1 < length r"
      using parse_shorter[of n s v r] sk[of r c r1] by simp_all
    then have "length (skip_ws r1) + 2 \<le> length s"
      using skip_ws_length[of r1] by simp
    then show "parse_array_items (Suc n) (skip_ws r1) = parse_array_items n (skip_ws r1)"
      using b by (intro pa) simp
  qed
  have three: "parse_object_items (Suc (Suc n)) s = parse_object_items (Suc n) s"
    if b: "2 * length s + 2 \<le> Suc n"
  proof (rule object_cong)
    fix k r c r1 assume "scanstring s = Some (k, r)" "skip_ws r = c # r1"
    then have "length r < length s" "length r1 < length r"
      using scanstring_shorter[of s k r] sk[of r c r1] by simp_all
    then have "length (skip_ws r1) + 2 \<le> length s"
      using skip_ws_length[of r1] by simp
    then show "parse_value (Suc n) (skip_ws r1) = parse_value n (skip_ws r1)"
      using b by (intro pv) simp
  next
    fix k r c r1 v r2 c2 r3 c3 r4
    assume "scanstring s = Some (k, r)" "skip_ws r = c # r1"
      "parse_value n (skip_ws r1) = Some (v, r2)" "skip_ws r2 = c2 # r3" "skip_ws r3 = c3 # r4"
    then have "length r < length s" "length r1 < length r" "length r2 < length (skip_ws r1)"
      "length r3 < length r2" "length r4 < length r3"
      using scanstring_shorter[of s k r] sk[of r c r1] parse_shorter[of n "skip_ws r1" v r2]
        sk[of r2 c2 r3] sk[of r3 c3 r4] by simp_all
    then have "length r4 + 5 \<le> length s"
      using skip_ws_length[of r1] by simp
    then show "parse_object_items (Suc n) r4 = parse_object_items n r4"
      using b by (intro po) simp
  qed
  show ?case using one two three by blast
qed

lemma fuel_enough:
  assumes "2 * length s + 1 \<le> n"
  shows "parse_value n s = parse_value (2 * length s + 1) s"
  using assms
proof (induction n)
  case 0
  then show ?case by simp
next
  case (Suc n)
  show ?case
  proof (cases "2 * length s + 1 \<le> n")
    case True
    then show ?thesis using Suc.IH fuel_step[of s n] by simp
  next
    case False
    with Suc.prems have "Suc n = 2 * length s + 1" by simp
    then show ?thesis by simp
  qed
qed


lemma json_loads_any_fuel:
  assumes "2 * length s + 1 \<le> n" and "take 1 s \<noteq> [0xFEFF]"
  shows "json_loads s =
     (case parse_value n (skip_ws s) of
        None \<Rightarrow> None
      | Some (v, r) \<Rightarrow> if skip_ws r = [] then Some v else None)"
proof -
  have l: "2 * length (skip_ws s) + 1 \<le> 2 * length s + 1"
    using skip_ws_length[of s] by simp
  have "parse_value n (skip_ws s) = parse_value (2 * length (skip_ws s) + 1) (skip_ws s)"
    using assms(1) l by (intro fuel_enough) simp
  also have "\<dots> = parse_value (2 * length s + 1) (skip_ws s)"
    using fuel_enough[OF l] by simp
  finally show ?thesis using assms(2) by (simp add: json_loads_def)
qed

section \<open>Finding records\<close>

lemma find_None_iff:
  "find_bookmark_by_url bs u = None \<longleftrightarrow> (\<forall>b \<in> set bs. lower (url b) \<noteq> lower u)"
  by (induction bs) auto

lemma find_first_match:
  "\<forall>x \<in> set xs. lower (url x) \<noteq> lower u \<Longrightarrow> lower (url b) = lower u
     \<Longrightarrow> find_bookmark_by_url (xs @ b # ys) u = Some (length xs)"
  by (induction xs) auto

lemma find_Some_bounds:
  "find_bookmark_by_url bs u = Some i \<Longrightarrow> i < length bs \<and> lower (url (bs ! i)) = lower u"
  by (induction bs arbitrary: i) (auto split: if_splits)

lemma contains_iff_sublist: "contains s q \<longleftrightarrow> sublist q s"
  by (induction s) (auto simp: sublist_Cons_right)

lemma marked_single: "marked_for_removal [r] = (\<lambda>x. lower (url x) = lower (url r))"
  by (simp add: fun_eq_iff marked_for_removal_def)

lemma filter_unique_split:
  assumes "distinct (map f (xs @ b # ys))"
  shows "filter (\<lambda>x. f x \<noteq> f b) (xs @ b # ys) = xs @ ys"
    and "filter (\<lambda>x. f x = f b) (xs @ b # ys) = [b]"
proof -
  have "\<forall>x \<in> set xs \<union> set ys. f x \<noteq> f b" using assms by (auto simp: image_iff)
  then show "filter (\<lambda>x. f x \<noteq> f b) (xs @ b # ys) = xs @ ys"
    and "filter (\<lambda>x. f x = f b) (xs @ b # ys) = [b]"
    by (auto simp: filter_empty_conv intro: filter_True)
qed

section \<open>Evaluating the examples\<close>

lemmas text_eval = lower_def lower_char_def strip_def is_space_def str_def

lemmas url_eval = validate_url_def urlparse_def split_scheme_def split_netloc_def
  is_c0_or_space_def is_ascii_alpha_def scheme_chars_def

lemma fields_encodable_site: "fields_encodable (site u t g)"
  by (simp add: fields_encodable_def site_def encodable_str)

lemma valid_example: "validate_url (str ''https://example.com/'')"
  by (simp add: url_eval text_eval)

lemma valid_spaced: "validate_url (str ''https://example.com/ '')"
  by (simp add: url_eval text_eval)

lemma strip_spaced: "strip (str ''https://example.com/ '') = str ''https://example.com/''"
  by (simp add: text_eval)


lemma add_new_site:
  assumes "validate_url u" "find_bookmark_by_url (bookmarks m) u = None"
    "strip t \<noteq> []" "strip g \<noteq> []"
    "list_all fields_encodable (bookmarks m)"
    "encodable (strip u)" "encodable (strip t)" "encodable (strip g)"
  shows "add_bookmark IoSuccess m d u t g
     = (Inr \<lparr>url = strip u, title = strip t, tag = strip g, members = Url_Title_Tag\<rparr>,
        m\<lparr>bookmarks := bookmarks m
              @ [\<lparr>url = strip u, title = strip t, tag = strip g, members = Url_Title_Tag\<rparr>]\<rparr>,
        d(data_file m \<mapsto> json_dumps (bookmarks m
              @ [\<lparr>url = strip u, title = strip t, tag = strip g, members = Url_Title_Tag\<rparr>])))"
  using assms
  by (simp add: add_bookmark_def save_bookmarks_def encodable_json_chunks fields_encodable_def
      Let_def)

section \<open>Uniqueness of urls\<close>

lemma add_bookmark_keeps_url_unique:
  assumes "url_unique (bookmarks m)" "strip u = u"
  shows "url_unique (bookmarks (fst (snd (add_bookmark io m d u t g))))"
  using assms
  by (cases io)
    (auto simp: add_bookmark_def save_bookmarks_def Let_def url_unique_def find_None_iff)

lemma delete_bookmark_keeps_url_unique:
  assumes "url_unique (bookmarks m)"
  shows "url_unique (bookmarks (fst (snd (delete_bookmark io m d i ty))))"
  using assms
  by (cases io)
    (auto simp: delete_bookmark_def save_bookmarks_def Let_def url_unique_def distinct_map_filter)

text \<open>
  C1: no two records of a reachable collection share a url, ignoring case, also when the
  added url carries surrounding white space. The duplicate check of \<open>add_bookmark\<close> compares
  the url as given, the record stores the stripped url: starting from the empty collection,
  adding \<open>https://example.com/\<close> and then the same url with a trailing space succeeds twice
  and leaves two records with the url \<open>https://example.com/\<close>.
\<close>
theorem add_of_spaced_url_breaks_uniqueness:
  "url_unique (bookmarks (fst (run
      [(IoSuccess, OpAdd (str ''https://example.com/'') (str ''Example A'') (str ''web''))]
      (empty_manager, Map.empty))))
   \<and> map url (bookmarks (fst (run
      [(IoSuccess, OpAdd (str ''https://example.com/'') (str ''Example A'') (str ''web'')),
       (IoSuccess, OpAdd (str ''https://example.com/ '') (str ''Copy'') (str ''web''))]
      (empty_manager, Map.empty))))
     = [str ''https://example.com/'', str ''https://example.com/'']
   \<and> \<not> url_unique (bookmarks (fst (run
      [(IoSuccess, OpAdd (str ''https://example.com/'') (str ''Example A'') (str ''web'')),
       (IoSuccess, OpAdd (str ''https://example.com/ '') (str ''Copy'') (str ''web''))]
      (empty_manager, Map.empty))))"
proof -
  let ?copy = "site ''https://example.com/'' ''Copy'' ''web''"
  have strips: "strip (str ''https://example.com/'') = str ''https://example.com/''"
    "strip (str ''Example A'') = str ''Example A''" "strip (str ''web'') = str ''web''"
    "strip (str ''Copy'') = str ''Copy''"
    by (simp_all add: text_eval)
  have nonempty: "str ''https://example.com/'' \<noteq> []" "str ''Example A'' \<noteq> []"
    "str ''web'' \<noteq> []" "str ''Copy'' \<noteq> []"
    by (simp_all add: str_def)
  have first: "add_bookmark IoSuccess empty_manager Map.empty
      (str ''https://example.com/'') (str ''Example A'') (str ''web'')
    = (Inr example_site, \<lparr>data_file = the_file, bookmarks = [example_site]\<rparr>,
       [the_file \<mapsto> json_dumps [example_site]])"
    using add_new_site[of "str ''https://example.com/''" empty_manager "str ''Example A''"
        "str ''web''" Map.empty]
    by (simp add: valid_example strips nonempty encodable_str empty_manager_def
        example_site_def site_def)
  have differ: "lower (str ''https://example.com/'') \<noteq> lower (str ''https://example.com/ '')"
    by (simp add: text_eval)
  have second: "add_bookmark IoSuccess \<lparr>data_file = the_file, bookmarks = [example_site]\<rparr>
      [the_file \<mapsto> json_dumps [example_site]]
      (str ''https://example.com/ '') (str ''Copy'') (str ''web'')
    = (Inr ?copy, \<lparr>data_file = the_file, bookmarks = [example_site, ?copy]\<rparr>,
       [the_file \<mapsto> json_dumps [example_site, ?copy]])"
    using add_new_site[of "str ''https://example.com/ ''"
        "\<lparr>data_file = the_file, bookmarks = [example_site]\<rparr>" "str ''Copy''"
        "str ''web''" "[the_file \<mapsto> json_dumps [example_site]]"]
    by (simp add: valid_spaced strip_spaced strips nonempty encodable_str differ
        fields_encodable_def example_site_def site_def)
  have same: "url ?copy = url example_site" "url example_site = str ''https://example.com/''"
    by (simp_all add: example_site_def site_def)
  show ?thesis
    by (simp add: run_def first second url_unique_def same)
qed

text \<open>
  C3: after a successful add the unfiltered list holds exactly one record with the stripped
  values, and a second add of the same url is rejected with \<open>DuplicateUrl\<close>, the collection
  unchanged. For the valid url \<open>https://example.com/\<close> followed by a space, the second add
  is not rejected: it succeeds and the list then holds the record twice.
\<close>
theorem second_add_of_spaced_url_accepted:
  "validate_url (str ''https://example.com/ '')
   \<and> (case add_bookmark IoSuccess empty_manager Map.empty
              (str ''https://example.com/ '') (str ''Example A'') (str ''web'') of
        (r1, m1, d1) \<Rightarrow>
          r1 = Inr example_site
          \<and> fst (list_bookmarks m1 None None) = Listing [example_site]
          \<and> (case add_bookmark IoSuccess m1 d1
                     (str ''https://example.com/ '') (str ''Example A'') (str ''web'') of
               (r2, m2, d2) \<Rightarrow>
                 r2 = Inr example_site \<and> bookmarks m2 = [example_site, example_site]
                 \<and> fst (list_bookmarks m2 None None) = Listing [example_site, example_site]))"
proof -
  have strips: "strip (str ''Example A'') = str ''Example A''" "strip (str ''web'') = str ''web''"
    by (simp_all add: text_eval)
  have nonempty: "str ''https://example.com/'' \<noteq> []" "str ''Example A'' \<noteq> []"
    "str ''web'' \<noteq> []"
    by (simp_all add: str_def)
  have first: "add_bookmark IoSuccess empty_manager Map.empty
      (str ''https://example.com/ '') (str ''Example A'') (str ''web'')
    = (Inr example_site, \<lparr>data_file = the_file, bookmarks = [example_site]\<rparr>,
       [the_file \<mapsto> json_dumps [example_site]])"
    using add_new_site[of "str ''https://example.com/ ''" empty_manager "str ''Example A''"
        "str ''web''" Map.empty]
    by (simp add: valid_spaced strip_spaced strips nonempty encodable_str empty_manager_def
        example_site_def site_def)
  have differ: "lower (str ''https://example.com/'') \<noteq> lower (str ''https://example.com/ '')"
    by (simp add: text_eval)
  have second: "add_bookmark IoSuccess \<lparr>data_file = the_file, bookmarks = [example_site]\<rparr>
      [the_file \<mapsto> json_dumps [example_site]]
      (str ''https://example.com/ '') (str ''Example A'') (str ''web'')
    = (Inr example_site, \<lparr>data_file = the_file, bookmarks = [example_site, example_site]\<rparr>,
       [the_file \<mapsto> json_dumps [example_site, example_site]])"
    using add_new_site[of "str ''https://example.com/ ''"
        "\<lparr>data_file = the_file, bookmarks = [example_site]\<rparr>" "str ''Example A''"
        "str ''web''" "[the_file \<mapsto> json_dumps [example_site]]"]
    by (simp add: valid_spaced strip_spaced strips nonempty encodable_str differ
        fields_encodable_def example_site_def site_def)
  show ?thesis
    by (simp add: valid_spaced first second list_bookmarks_def bookmarks_to_show_def truthy_def
        Let_def)
qed

section \<open>Save failure\<close>

lemma save_result_cases:
  "fst (save_bookmarks io m d) = Saved
     \<longleftrightarrow> io = IoSuccess \<and> list_all fields_encodable (bookmarks m)"
  "fst (save_bookmarks io m d) = SaveRaised
     \<longleftrightarrow> io = IoSuccess \<and> \<not> list_all fields_encodable (bookmarks m)"
  "fst (save_bookmarks io m d) = SaveFailed \<longleftrightarrow> io \<noteq> IoSuccess"
  by (cases io; simp add: save_bookmarks_def encodable_json_chunks)+

lemma save_Saved_disk:
  "fst (save_bookmarks io m d) = Saved
     \<Longrightarrow> snd (save_bookmarks io m d) = d(data_file m \<mapsto> json_dumps (bookmarks m))"
  by (cases io) (simp_all add: save_bookmarks_def split: if_splits)

text \<open>
  When the save returns \<open>False\<close>, that is after an \<open>IOError\<close>, the mutation is undone.
\<close>

lemma io_failure_restores_collection:
  assumes "io \<noteq> IoSuccess"
  shows "(validate_url u \<and> find_bookmark_by_url (bookmarks m) u = None
            \<and> strip t \<noteq> [] \<and> strip g \<noteq> []
          \<longrightarrow> fst (add_bookmark io m d u t g) = Inl SaveFailure
              \<and> fst (snd (add_bookmark io m d u t g)) = m)
       \<and> (strip i \<noteq> [] \<and> bookmarks_to_remove m i ty \<noteq> []
          \<longrightarrow> fst (delete_bookmark io m d i ty) = Inl SaveFailure
              \<and> fst (snd (delete_bookmark io m d i ty)) = m)"
proof -
  have s: "fst (save_bookmarks io m' d) = SaveFailed" for m'
    using assms by (simp add: save_result_cases)
  have a: "fst (add_bookmark io m d u t g) = Inl SaveFailure
           \<and> fst (snd (add_bookmark io m d u t g)) = m"
    if "validate_url u" "find_bookmark_by_url (bookmarks m) u = None"
       "strip t \<noteq> []" "strip g \<noteq> []"
    using that s by (simp add: add_bookmark_def Let_def split_beta)
  have b: "fst (delete_bookmark io m d i ty) = Inl SaveFailure
           \<and> fst (snd (delete_bookmark io m d i ty)) = m"
    if "strip i \<noteq> []" "bookmarks_to_remove m i ty \<noteq> []"
    using that s by (simp add: delete_bookmark_def Let_def split_beta)
  show ?thesis using a b by blast
qed

lemma add_raising:
  assumes "validate_url u" "find_bookmark_by_url (bookmarks m) u = None"
    "strip t \<noteq> []" "strip g \<noteq> []"
    "\<not> (encodable (strip u) \<and> encodable (strip t) \<and> encodable (strip g))"
  shows "add_bookmark IoSuccess m d u t g
     = (Inl UnicodeEncodeError,
        m\<lparr>bookmarks := bookmarks m
              @ [\<lparr>url = strip u, title = strip t, tag = strip g, members = Url_Title_Tag\<rparr>]\<rparr>,
        d(data_file m \<mapsto> handed_to_file (bookmarks m
              @ [\<lparr>url = strip u, title = strip t, tag = strip g, members = Url_Title_Tag\<rparr>])))"
  using assms
  by (simp add: add_bookmark_def save_bookmarks_def encodable_json_chunks fields_encodable_def
      Let_def)

lemma delete_by_url_found:
  assumes "url_unique (bookmarks m)" "strip i \<noteq> []"
    "bookmarks m = xs @ b # ys" "lower (url b) = lower i"
  shows "delete_bookmark io m d i (str ''url'')
     = (case fst (save_bookmarks io (m\<lparr>bookmarks := xs @ ys\<rparr>) d) of
          Saved \<Rightarrow> (Inr [b], m\<lparr>bookmarks := xs @ ys\<rparr>,
                    snd (save_bookmarks io (m\<lparr>bookmarks := xs @ ys\<rparr>) d))
        | SaveFailed \<Rightarrow> (Inl SaveFailure, m,
                    snd (save_bookmarks io (m\<lparr>bookmarks := xs @ ys\<rparr>) d))
        | SaveRaised \<Rightarrow> (Inl UnicodeEncodeError, m\<lparr>bookmarks := xs @ ys\<rparr>,
                    snd (save_bookmarks io (m\<lparr>bookmarks := xs @ ys\<rparr>) d)))"
proof -
  have nomatch: "\<forall>x \<in> set xs. lower (url x) \<noteq> lower i"
    using assms(1,3,4) by (auto simp: url_unique_def image_iff)
  have f: "find_bookmark_by_url (xs @ b # ys) i = Some (length xs)"
    using find_first_match[OF nomatch assms(4)] by simp
  have r: "bookmarks_to_remove m i (str ''url'') = [b]"
    by (simp add: bookmarks_to_remove_def f assms(3))
  have dist: "distinct (map (\<lambda>b. lower (url b)) (xs @ b # ys))"
    using assms(1,3) by (simp add: url_unique_def)
  have kept: "filter (\<lambda>x. \<not> marked_for_removal [b] x) (bookmarks m) = xs @ ys"
    and removed: "filter (marked_for_removal [b]) (bookmarks m) = [b]"
    using filter_unique_split[OF dist] by (simp_all add: marked_single assms(3))
  have restored: "m\<lparr>bookmarks := xs @ ys\<rparr>\<lparr>bookmarks := bookmarks m\<rparr> = m"
    by simp
  show ?thesis
    using assms(2)
    by (simp add: delete_bookmark_def r Let_def kept removed split_beta restored
        split: save_result.splits)
qed

lemma not_encodable_odd: "\<not> encodable [0xDCFF]" "\<not> fields_encodable odd_site"
  by (simp_all add: fields_encodable_def odd_site_def encodable_Cons)

text \<open>
  C2: when the save fails, a mutation reports the failure and the collection is the one
  before the call. The handler of \<open>_save_bookmarks\<close> catches \<open>IOError\<close> only. For a record
  whose title is the lone surrogate \<open>U+DCFF\<close> the write raises \<open>UnicodeEncodeError\<close>, and
  the exception leaves the method: the add of such a record to two records ends with the
  exception and three records in the collection, the delete of another record from a
  collection that holds such a record ends with the exception and the shortened
  collection, and the file holds the text that was written before the exception.
\<close>
theorem save_raising_keeps_mutation:
  "add_bookmark IoSuccess two_sites Map.empty (str ''https://odd.example/'') [0xDCFF] (str ''misc'')
     = (Inl UnicodeEncodeError,
        \<lparr>data_file = the_file, bookmarks = [example_site, docs_site, odd_site]\<rparr>,
        [the_file \<mapsto> handed_to_file [example_site, docs_site, odd_site]])
   \<and> [example_site, docs_site, odd_site] \<noteq> bookmarks two_sites
   \<and> delete_bookmark IoSuccess odd_sites Map.empty (str ''https://example.com/'') (str ''url'')
     = (Inl UnicodeEncodeError,
        \<lparr>data_file = the_file, bookmarks = [odd_site]\<rparr>,
        [the_file \<mapsto> handed_to_file [odd_site]])
   \<and> [odd_site] \<noteq> bookmarks odd_sites"
proof -
  have valid: "validate_url (str ''https://odd.example/'')"
    by (simp add: url_eval text_eval)
  have strips: "strip (str ''https://odd.example/'') = url odd_site"
    "strip [0xDCFF] = title odd_site" "strip (str ''misc'') = tag odd_site"
    by (simp_all add: text_eval odd_site_def)
  have nonempty: "title odd_site \<noteq> []" "tag odd_site \<noteq> []"
    "strip (str ''https://example.com/'') \<noteq> []"
    by (simp_all add: text_eval odd_site_def)
  have absent: "find_bookmark_by_url (bookmarks two_sites) (str ''https://odd.example/'') = None"
    by (simp add: two_sites_def example_site_def docs_site_def site_def text_eval)
  have bad: "\<not> encodable (title odd_site)"
    by (simp add: odd_site_def not_encodable_odd)
  have rec: "\<lparr>url = url odd_site, title = title odd_site, tag = tag odd_site,
              members = Url_Title_Tag\<rparr> = odd_site"
    by (simp add: odd_site_def)
  have add: "add_bookmark IoSuccess two_sites Map.empty
      (str ''https://odd.example/'') [0xDCFF] (str ''misc'')
     = (Inl UnicodeEncodeError,
        \<lparr>data_file = the_file, bookmarks = [example_site, docs_site, odd_site]\<rparr>,
        [the_file \<mapsto> handed_to_file [example_site, docs_site, odd_site]])"
    using add_raising[OF valid absent, of "[0xDCFF]" "str ''misc''" Map.empty] bad nonempty
    by (simp add: strips rec two_sites_def)
  have unique: "url_unique (bookmarks odd_sites)"
    by (simp add: url_unique_def odd_sites_def odd_site_def example_site_def site_def text_eval)
  have split: "bookmarks odd_sites = [] @ example_site # [odd_site]"
    by (simp add: odd_sites_def)
  have hit: "lower (url example_site) = lower (str ''https://example.com/'')"
    by (simp add: example_site_def site_def)
  have raises: "save_bookmarks IoSuccess (odd_sites\<lparr>bookmarks := [] @ [odd_site]\<rparr>) Map.empty
      = (SaveRaised, [the_file \<mapsto> handed_to_file [odd_site]])"
    by (simp add: save_bookmarks_def encodable_json_chunks not_encodable_odd odd_sites_def)
  have del: "delete_bookmark IoSuccess odd_sites Map.empty
      (str ''https://example.com/'') (str ''url'')
     = (Inl UnicodeEncodeError,
        \<lparr>data_file = the_file, bookmarks = [odd_site]\<rparr>,
        [the_file \<mapsto> handed_to_file [odd_site]])"
    using delete_by_url_found[OF unique nonempty(3) split hit, of IoSuccess Map.empty,
        unfolded raises fst_conv snd_conv save_result.case]
    by (simp add: odd_sites_def)
  have more: "[example_site, docs_site, odd_site] \<noteq> bookmarks two_sites"
    and fewer: "[odd_site] \<noteq> bookmarks odd_sites"
    by (simp_all add: two_sites_def odd_sites_def)
  from add more del fewer show ?thesis by (intro conjI)
qed

section \<open>Search\<close>

lemma first_title_match_found:
  "\<forall>x \<in> set xs. \<not> contains (lower (title x)) q \<Longrightarrow> contains (lower (title b)) q
     \<Longrightarrow> first_title_match (xs @ b # ys) q = FoundUrl (url b)"
  by (induction xs) auto

lemma first_title_match_none:
  "\<forall>x \<in> set bs. \<not> contains (lower (title x)) q \<Longrightarrow> first_title_match bs q = NoResult"
  by (induction bs) auto

text \<open>
  C4: a query that is empty after stripping is rejected with \<open>EmptyQuery\<close>, in every mode.
  For a query that is not empty after stripping, search in title mode returns the url
  of the first record, in insertion order, whose title contains the query as a substring,
  ignoring case, whatever records follow it; when no title contains the query it returns
  nothing. The result is one url, also when later records match.
\<close>
theorem search_title_first_match:
  "(strip q = [] \<longrightarrow> search_bookmarks m q st = (Inl EmptyQuery, m))
   \<and> (strip q \<noteq> [] \<longrightarrow>
        (bookmarks m = xs @ b # ys
            \<and> (\<forall>x \<in> set xs. \<not> sublist (lower q) (lower (title x)))
            \<and> sublist (lower q) (lower (title b))
          \<longrightarrow> search_bookmarks m q (str ''title'') = (Inr (FoundUrl (url b)), m))
       \<and> ((\<forall>x \<in> set (bookmarks m). \<not> sublist (lower q) (lower (title x)))
          \<longrightarrow> search_bookmarks m q (str ''title'') = (Inr NoResult, m)))"
  by (simp add: search_bookmarks_def first_title_match_found first_title_match_none
      contains_iff_sublist)

text \<open>
  The query \<open>Exam\<close> on the titles \<open>Example A\<close> and \<open>Example B\<close>: both contain it, the
  result is the url of the first. The query of a tab and a space is rejected.
\<close>

theorem search_title_first_match_witness:
  "strip (str ''Exam'') \<noteq> []
   \<and> bookmarks two_sites = [] @ example_site # [docs_site]
   \<and> sublist (lower (str ''Exam'')) (lower (title example_site))
   \<and> sublist (lower (str ''Exam'')) (lower (title docs_site))
   \<and> search_bookmarks two_sites (str ''Exam'') (str ''title'')
       = (Inr (FoundUrl (str ''https://example.com/'')), two_sites)
   \<and> strip [0x09, 0x20] = []
   \<and> search_bookmarks two_sites [0x09, 0x20] (str ''title'') = (Inl EmptyQuery, two_sites)"
proof -
  have h1: "strip (str ''Exam'') \<noteq> []" by (simp add: text_eval)
  have h2: "bookmarks two_sites = [] @ example_site # [docs_site]"
    by (simp add: two_sites_def)
  have "contains (lower (title example_site)) (lower (str ''Exam''))"
    by (simp add: example_site_def site_def text_eval)
  then have h3: "sublist (lower (str ''Exam'')) (lower (title example_site))"
    by (simp add: contains_iff_sublist)
  have "contains (lower (title docs_site)) (lower (str ''Exam''))"
    by (simp add: docs_site_def site_def text_eval)
  then have h4: "sublist (lower (str ''Exam'')) (lower (title docs_site))"
    by (simp add: contains_iff_sublist)
  have u: "url example_site = str ''https://example.com/''"
    by (simp add: example_site_def site_def)
  have h5: "strip [0x09, 0x20] = []" by (simp add: text_eval)
  show ?thesis
    using search_title_first_match[where m = two_sites and xs = "[]" and q = "str ''Exam''"
        and b = example_site and ys = "[docs_site]"]
      search_title_first_match[where m = two_sites and q = "[0x09, 0x20]"
        and st = "str ''title''"]
      h1 h2 h3 h4 h5 u
    by simp
qed

text \<open>
  For every non-empty query the statement fails: the query of one space is not empty and the
  title \<open>Example A\<close> contains it, but the search is rejected with \<open>EmptyQuery\<close>.
\<close>

theorem search_title_blank_query_counterexample:
  "[0x20] \<noteq> []
   \<and> sublist (lower [0x20]) (lower (title example_site))
   \<and> search_bookmarks two_sites [0x20] (str ''title'') = (Inl EmptyQuery, two_sites)
   \<and> fst (search_bookmarks two_sites [0x20] (str ''title''))
       \<noteq> Inr (FoundUrl (url example_site))"
proof -
  have "contains (lower (title example_site)) (lower [0x20])"
    by (simp add: example_site_def site_def text_eval)
  then have h: "sublist (lower [0x20]) (lower (title example_site))"
    by (simp add: contains_iff_sublist)
  have s: "strip [0x20] = []" by (simp add: text_eval)
  show ?thesis using h by (simp add: search_bookmarks_def s)
qed

text \<open>
  C5: a query that is empty after stripping is rejected with \<open>EmptyQuery\<close>, in every mode.
  For a query that is not empty after stripping, search in tag mode returns the titles
  of all records whose tag contains the query as a substring, ignoring case, in insertion
  order.
\<close>
theorem search_tag_all_matches:
  "(strip q = [] \<longrightarrow> search_bookmarks m q st = (Inl EmptyQuery, m))
   \<and> (strip q \<noteq> [] \<longrightarrow>
        search_bookmarks m q (str ''tag'')
        = (Inr (FoundTitles (map title
             (filter (\<lambda>b. sublist (lower q) (lower (tag b))) (bookmarks m)))), m))"
proof -
  have "str ''tag'' \<noteq> str ''title''" by (simp add: str_def)
  then show ?thesis by (simp add: search_bookmarks_def contains_iff_sublist)
qed

text \<open>
  The query \<open>dev\<close> on the tags \<open>Development\<close>, \<open>reading\<close> and \<open>development tools\<close> gives
  the titles of the first and the third record. The query of a line feed is rejected.
\<close>

theorem search_tag_all_matches_witness:
  "strip (str ''dev'') \<noteq> []
   \<and> search_bookmarks dev_sites (str ''dev'') (str ''tag'')
       = (Inr (FoundTitles [str ''Git'', str ''Make'']), dev_sites)
   \<and> strip [0x0A] = []
   \<and> search_bookmarks dev_sites [0x0A] (str ''tag'') = (Inl EmptyQuery, dev_sites)"
proof -
  have h: "strip (str ''dev'') \<noteq> []" by (simp add: text_eval)
  have e: "map title (filter (\<lambda>b. contains (lower (tag b)) (lower (str ''dev'')))
              (bookmarks dev_sites))
           = [str ''Git'', str ''Make'']"
    by (simp add: dev_sites_def site_def text_eval)
  have h2: "strip [0x0A] = []" by (simp add: text_eval)
  show ?thesis
    using search_tag_all_matches[of "str ''dev''" dev_sites]
      search_tag_all_matches[of "[0x0A]" dev_sites "str ''tag''"] h h2 e
    by (simp add: contains_iff_sublist)
qed

text \<open>
  For every non-empty query the statement fails: the query of one space is contained in the
  tag \<open>dev tools\<close>, but the search is rejected with \<open>EmptyQuery\<close> and returns no title.
\<close>

theorem search_tag_blank_query_counterexample:
  "[0x20] \<noteq> []
   \<and> filter (\<lambda>b. sublist (lower [0x20]) (lower (tag b))) (bookmarks two_sites) = [docs_site]
   \<and> search_bookmarks two_sites [0x20] (str ''tag'') = (Inl EmptyQuery, two_sites)
   \<and> fst (search_bookmarks two_sites [0x20] (str ''tag''))
       \<noteq> Inr (FoundTitles [title docs_site])"
proof -
  have "filter (\<lambda>b. contains (lower (tag b)) (lower [0x20])) (bookmarks two_sites)
        = [docs_site]"
    by (simp add: two_sites_def example_site_def docs_site_def site_def text_eval)
  then have h: "filter (\<lambda>b. sublist (lower [0x20]) (lower (tag b))) (bookmarks two_sites)
        = [docs_site]"
    by (simp add: contains_iff_sublist)
  have s: "strip [0x20] = []" by (simp add: text_eval)
  show ?thesis using h by (simp add: search_bookmarks_def s)
qed

section \<open>Delete by url\<close>

text \<open>
  C6: an identifier that is empty after stripping is rejected with \<open>EmptyIdentifier\<close>, in
  every mode, the manager and the file unchanged. In a collection with unique urls, for an
  identifier that is not empty after stripping: when a record's url equals the identifier,
  ignoring case, and the save succeeds, delete in url mode removes exactly that record,
  keeps the others in order, writes them to the backing file and reports the removed
  record; when no record's url equals it, delete is rejected with \<open>NotFound\<close> and the
  manager and the file are unchanged.
\<close>
theorem delete_by_url_removes_one_or_not_found:
  "(strip i = [] \<longrightarrow> delete_bookmark io m d i ty = (Inl EmptyIdentifier, m, d))
   \<and> (url_unique (bookmarks m) \<and> strip i \<noteq> [] \<longrightarrow>
        (bookmarks m = xs @ b # ys \<and> lower (url b) = lower i
            \<and> fst (save_bookmarks io (m\<lparr>bookmarks := xs @ ys\<rparr>) d) = Saved
          \<longrightarrow> delete_bookmark io m d i (str ''url'')
              = (Inr [b], m\<lparr>bookmarks := xs @ ys\<rparr>,
                 d(data_file m \<mapsto> json_dumps (xs @ ys))))
       \<and> ((\<forall>x \<in> set (bookmarks m). lower (url x) \<noteq> lower i)
          \<longrightarrow> delete_bookmark io m d i (str ''url'') = (Inl NotFound, m, d)))"
proof -
  have blank: "delete_bookmark io m d i ty = (Inl EmptyIdentifier, m, d)" if "strip i = []"
    using that by (simp add: delete_bookmark_def)
  have present: "delete_bookmark io m d i (str ''url'')
      = (Inr [b], m\<lparr>bookmarks := xs @ ys\<rparr>, d(data_file m \<mapsto> json_dumps (xs @ ys)))"
    if "url_unique (bookmarks m)" "strip i \<noteq> []"
      "bookmarks m = xs @ b # ys" "lower (url b) = lower i"
      "fst (save_bookmarks io (m\<lparr>bookmarks := xs @ ys\<rparr>) d) = Saved"
    using delete_by_url_found[OF that(1-4), of io d] that(5) save_Saved_disk[OF that(5)]
    by simp
  have absent: "delete_bookmark io m d i (str ''url'') = (Inl NotFound, m, d)"
    if "strip i \<noteq> []" "\<forall>x \<in> set (bookmarks m). lower (url x) \<noteq> lower i"
  proof -
    have "find_bookmark_by_url (bookmarks m) i = None"
      using that(2) by (simp add: find_None_iff)
    then show ?thesis using that(1)
      by (simp add: delete_bookmark_def bookmarks_to_remove_def)
  qed
  show ?thesis using blank present absent by blast
qed

text \<open>
  On the two example records: the url of the second in another letter case removes the
  second, an absent url is answered with \<open>NotFound\<close>, and a tab with \<open>EmptyIdentifier\<close>.
\<close>

theorem delete_by_url_removes_one_or_not_found_witness:
  "url_unique (bookmarks two_sites)
   \<and> strip (str ''HTTPS://Docs.Example.ORG/'') \<noteq> []
   \<and> lower (url docs_site) = lower (str ''HTTPS://Docs.Example.ORG/'')
   \<and> fst (save_bookmarks IoSuccess (two_sites\<lparr>bookmarks := [example_site] @ []\<rparr>) Map.empty)
       = Saved
   \<and> fst (delete_bookmark IoSuccess two_sites Map.empty
            (str ''HTTPS://Docs.Example.ORG/'') (str ''url'')) = Inr [docs_site]
   \<and> bookmarks (fst (snd (delete_bookmark IoSuccess two_sites Map.empty
         (str ''HTTPS://Docs.Example.ORG/'') (str ''url'')))) = [example_site]
   \<and> strip (str ''https://absent.example/'') \<noteq> []
   \<and> list_all (\<lambda>x. lower (url x) \<noteq> lower (str ''https://absent.example/''))
        (bookmarks two_sites)
   \<and> delete_bookmark IoSuccess two_sites Map.empty (str ''https://absent.example/'') (str ''url'')
       = (Inl NotFound, two_sites, Map.empty)
   \<and> strip [0x09] = []
   \<and> delete_bookmark IoSuccess two_sites Map.empty [0x09] (str ''url'')
       = (Inl EmptyIdentifier, two_sites, Map.empty)"
proof -
  have u: "url_unique (bookmarks two_sites)"
    by (simp add: url_unique_def two_sites_def example_site_def docs_site_def site_def text_eval)
  have s1: "strip (str ''HTTPS://Docs.Example.ORG/'') \<noteq> []" by (simp add: text_eval)
  have s2: "strip (str ''https://absent.example/'') \<noteq> []" by (simp add: text_eval)
  have s3: "strip [0x09] = []" by (simp add: text_eval)
  have e: "bookmarks two_sites = [example_site] @ docs_site # []"
    by (simp add: two_sites_def)
  have l: "lower (url docs_site) = lower (str ''HTTPS://Docs.Example.ORG/'')"
    by (simp add: docs_site_def site_def text_eval)
  have a: "list_all (\<lambda>x. lower (url x) \<noteq> lower (str ''https://absent.example/''))
        (bookmarks two_sites)"
    by (simp add: two_sites_def example_site_def docs_site_def site_def text_eval)
  have sv: "fst (save_bookmarks IoSuccess (two_sites\<lparr>bookmarks := [example_site] @ []\<rparr>)
        Map.empty) = Saved"
    by (simp add: save_result_cases example_site_def fields_encodable_site)
  show ?thesis
    using delete_by_url_removes_one_or_not_found[where m = two_sites
        and i = "str ''HTTPS://Docs.Example.ORG/''" and xs = "[example_site]"
        and b = docs_site and ys = "[]" and d = Map.empty and io = IoSuccess]
      delete_by_url_removes_one_or_not_found[where m = two_sites
        and i = "str ''https://absent.example/''" and io = IoSuccess and d = Map.empty]
      delete_by_url_removes_one_or_not_found[where m = two_sites
        and i = "[0x09]" and io = IoSuccess and d = Map.empty and ty = "str ''url''"]
      u s1 s2 s3 e l a sv
    by (simp add: list_all_iff)
qed

text \<open>
  For every identifier the statement fails: the identifier of one space equals no url of
  the collection, and delete is rejected with \<open>EmptyIdentifier\<close>, not with \<open>NotFound\<close>.
\<close>

theorem delete_by_url_blank_identifier_counterexample:
  "url_unique (bookmarks two_sites)
   \<and> list_all (\<lambda>x. lower (url x) \<noteq> lower [0x20]) (bookmarks two_sites)
   \<and> delete_bookmark IoSuccess two_sites Map.empty [0x20] (str ''url'')
       = (Inl EmptyIdentifier, two_sites, Map.empty)
   \<and> fst (delete_bookmark IoSuccess two_sites Map.empty [0x20] (str ''url'')) \<noteq> Inl NotFound"
proof -
  have u: "url_unique (bookmarks two_sites)"
    by (simp add: url_unique_def two_sites_def example_site_def docs_site_def site_def text_eval)
  have a: "list_all (\<lambda>x. lower (url x) \<noteq> lower [0x20]) (bookmarks two_sites)"
    by (simp add: two_sites_def example_site_def docs_site_def site_def text_eval)
  have s: "strip [0x20] = []" by (simp add: text_eval)
  show ?thesis using u a by (simp add: delete_bookmark_def s)
qed

section \<open>Tags\<close>

text \<open>
  C8: for a collection that is not empty, \<open>list_tags\<close> yields the tags of the collection,
  each once, in ascending order of the strings compared by code point; tags that
  differ in letter case are different entries, and the tags \<open>b\<close>, \<open>a\<close>, \<open>B\<close> give
  \<open>B\<close>, \<open>a\<close>, \<open>b\<close>.
\<close>
theorem list_tags_sorted_distinct:
  "(bookmarks m \<noteq> []
     \<longrightarrow> (\<exists>ts. list_tags m = (Some ts, m) \<and> sorted ts \<and> distinct ts
              \<and> set ts = tag ` set (bookmarks m)))
   \<and> fst (list_tags three_tags) = Some [str ''B'', str ''a'', str ''b'']"
proof -
  have "fst (list_tags three_tags) = Some [str ''B'', str ''a'', str ''b'']"
    by (simp add: list_tags_def three_tags_def site_def str_def)
  then show ?thesis by (simp add: list_tags_def)
qed

text \<open>The tags of three records, two of them equal up to letter case.\<close>

theorem list_tags_sorted_distinct_witness:
  "bookmarks dev_sites \<noteq> []
   \<and> list_tags dev_sites
       = (Some [str ''Development'', str ''development tools'', str ''reading''], dev_sites)"
proof -
  have n: "bookmarks dev_sites \<noteq> []" by (simp add: dev_sites_def)
  have e: "fst (list_tags dev_sites)
      = Some [str ''Development'', str ''development tools'', str ''reading'']"
    by (simp add: list_tags_def dev_sites_def site_def str_def)
  from list_tags_sorted_distinct[of dev_sites] n
  obtain ts where "list_tags dev_sites = (Some ts, dev_sites)" by blast
  with e n show ?thesis by simp
qed

section \<open>The backing file of a run\<close>

lemma save_bookmarks_frame:
  "p \<noteq> data_file m \<Longrightarrow> snd (save_bookmarks io m d) p = d p"
  by (cases io) (simp_all add: save_bookmarks_def)

lemma save_bookmarks_result_disk:
  "fst (save_bookmarks io m d') = fst (save_bookmarks io m d)"
  by (cases io) (simp_all add: save_bookmarks_def)

lemma add_bookmark_frame:
  "p \<noteq> data_file m \<Longrightarrow> snd (snd (add_bookmark io m d u t g)) p = d p"
  by (simp add: add_bookmark_def Let_def split_beta save_bookmarks_frame
      split: save_result.splits)

lemma delete_bookmark_frame:
  "p \<noteq> data_file m \<Longrightarrow> snd (snd (delete_bookmark io m d i ty)) p = d p"
  by (simp add: delete_bookmark_def Let_def split_beta save_bookmarks_frame
      split: save_result.splits)

lemma add_bookmark_result_disk:
  "fst (add_bookmark io m d' u t g) = fst (add_bookmark io m d u t g)"
  using save_bookmarks_result_disk[of io _ d' d]
  by (simp add: add_bookmark_def Let_def split_beta split: save_result.splits)

lemma delete_bookmark_result_disk:
  "fst (delete_bookmark io m d' i ty) = fst (delete_bookmark io m d i ty)"
  using save_bookmarks_result_disk[of io _ d' d]
  by (simp add: delete_bookmark_def Let_def split_beta split: save_result.splits)

lemma execute_frame:
  "p \<noteq> data_file m \<Longrightarrow> snd (snd (execute io c m d)) p = d p"
  by (cases c) (simp_all add: execute_def split_beta add_bookmark_frame delete_bookmark_frame)

lemma execute_result_disk:
  "fst (execute io c m d') = fst (execute io c m d)"
  by (cases c)
    (simp_all add: execute_def split_beta add_bookmark_result_disk delete_bookmark_result_disk)

lemma load_bookmarks_reads_path:
  "d' p = d p \<Longrightarrow> load_bookmarks r p d' = load_bookmarks r p d"
  by (simp add: load_bookmarks_def)

lemma the_file_path: "bookmarks_path (home user_env) = the_file"
  by (simp add: bookmarks_path_def user_env_def the_file_def str_def)

text \<open>
  C9: the value of the \<open>--file\<close> option has no influence on a run. The result and the
  disk after \<open>main\<close> are the same for every value of the option; no file other than the
  fixed path in the home directory is changed; and the result depends on the disk only
  through the file at that path.
\<close>
theorem main_ignores_file_option:
  "main e (a\<lparr>file_arg := f\<rparr>) d = main e a d
   \<and> (p \<noteq> bookmarks_path (home e) \<longrightarrow> snd (main e a d) p = d p)
   \<and> (d' (bookmarks_path (home e)) = d (bookmarks_path (home e))
        \<longrightarrow> fst (main e a d') = fst (main e a d))"
proof -
  have one: "main e (a\<lparr>file_arg := f\<rparr>) d = main e a d"
    by (simp add: main_def)
  have two: "snd (main e a d) p = d p" if "p \<noteq> bookmarks_path (home e)"
    using that
    by (simp add: main_def Let_def split_beta execute_frame
        split: option.splits loaded.splits)
  have three: "fst (main e a d') = fst (main e a d)"
    if "d' (bookmarks_path (home e)) = d (bookmarks_path (home e))"
    using load_bookmarks_reads_path[where d' = d' and d = d and p = "bookmarks_path (home e)"
        and r = "read_ok e"] that execute_result_disk[of "save_io e" _ _ d' d]
    by (simp add: main_def Let_def split_beta split: option.splits loaded.splits)
  show ?thesis using one two three by blast
qed

text \<open>
  An add with \<open>--file other.json\<close> on an empty disk: nothing is at \<open>other.json\<close> afterwards,
  and the record is in the file of the home directory.
\<close>

theorem main_ignores_file_option_witness:
  "str ''other.json'' \<noteq> bookmarks_path (home user_env)
   \<and> snd (main user_env
        \<lparr>command = Some (CmdAdd (str ''https://example.com/'') (str ''Example A'') (str ''web'')),
         file_arg = str ''other.json''\<rparr> Map.empty) (str ''other.json'') = None
   \<and> snd (main user_env
        \<lparr>command = Some (CmdAdd (str ''https://example.com/'') (str ''Example A'') (str ''web'')),
         file_arg = str ''other.json''\<rparr> Map.empty) the_file
       = Some (json_dumps [example_site])"
proof -
  let ?a = "\<lparr>command = Some (CmdAdd (str ''https://example.com/'') (str ''Example A'')
                (str ''web'')), file_arg = str ''other.json''\<rparr>"
  have h: "str ''other.json'' \<noteq> bookmarks_path (home user_env)"
    by (simp add: the_file_path the_file_def str_def)
  have strips: "strip (str ''https://example.com/'') = str ''https://example.com/''"
    "strip (str ''Example A'') = str ''Example A''" "strip (str ''web'') = str ''web''"
    by (simp_all add: text_eval)
  have nonempty: "str ''Example A'' \<noteq> []" "str ''web'' \<noteq> []"
    by (simp_all add: str_def)
  have add: "add_bookmark IoSuccess \<lparr>data_file = the_file, bookmarks = []\<rparr> Map.empty
      (str ''https://example.com/'') (str ''Example A'') (str ''web'')
    = (Inr example_site, \<lparr>data_file = the_file, bookmarks = [example_site]\<rparr>,
       [the_file \<mapsto> json_dumps [example_site]])"
    using add_new_site[of "str ''https://example.com/''"
        "\<lparr>data_file = the_file, bookmarks = []\<rparr>" "str ''Example A''" "str ''web''" Map.empty]
    by (simp add: valid_example strips nonempty encodable_str example_site_def site_def)
  have w: "snd (main user_env ?a Map.empty) the_file = Some (json_dumps [example_site])"
    by (simp add: main_def load_bookmarks_def the_file_path execute_def raised_def)
      (simp add: user_env_def add)
  show ?thesis
    using main_ignores_file_option[where e = user_env and p = "str ''other.json''"
        and d = Map.empty and a = ?a] h w
    by simp
qed

section \<open>Read-only operations\<close>

text \<open>
  C10: \<open>list_bookmarks\<close>, \<open>search_bookmarks\<close>, \<open>list_tags\<close>, \<open>list_titles\<close> and
  \<open>show_stats\<close> return the manager they were given; a command other than add and delete
  leaves the manager and the disk as they were, in the dispatcher and in a whole run of
  \<open>main\<close>.
\<close>
theorem read_only_operations_keep_state:
  "snd (list_bookmarks m ft fv) = m
   \<and> snd (search_bookmarks m q st) = m
   \<and> snd (list_tags m) = m
   \<and> snd (list_titles m) = m
   \<and> snd (show_stats m) = m
   \<and> ((\<forall>u t g. c \<noteq> CmdAdd u t g) \<and> (\<forall>x y. c \<noteq> CmdDelete x y)
        \<longrightarrow> snd (execute io c m d) = (m, d)
            \<and> snd (main e \<lparr>command = Some c, file_arg = f\<rparr> d) = d)"
proof -
  have ops: "snd (list_bookmarks m ft fv) = m" "snd (search_bookmarks m q st) = m"
    "snd (list_tags m) = m" "snd (list_titles m) = m" "snd (show_stats m) = m" for m ft fv q st
    by (simp_all add: list_bookmarks_def search_bookmarks_def list_tags_def list_titles_def
        show_stats_def Let_def)
  have ex: "snd (execute io c m d) = (m, d)"
    if "\<forall>u t g. c \<noteq> CmdAdd u t g" "\<forall>x y. c \<noteq> CmdDelete x y" for m io
    using that by (cases c) (simp_all add: execute_def split_beta ops)
  have mn: "snd (main e \<lparr>command = Some c, file_arg = f\<rparr> d) = d"
    if "\<forall>u t g. c \<noteq> CmdAdd u t g" "\<forall>x y. c \<noteq> CmdDelete x y"
    using ex[OF that]
    by (simp add: main_def Let_def split_beta split: option.splits loaded.splits)
  show ?thesis using ex[where m = m and io = io] mn by (simp add: ops)
qed

text \<open>The command \<open>tags\<close> on a disk with two saved records.\<close>

theorem read_only_operations_keep_state_witness:
  "main user_env \<lparr>command = Some CmdTags, file_arg = str ''other.json''\<rparr> saved_disk
     = (TagList (Some [str ''dev tools'', str ''web'']), saved_disk)"
proof -
  have enc: "list_all fields_encodable (bookmarks two_sites)"
    by (simp add: two_sites_def example_site_def docs_site_def fields_encodable_site)
  have disk: "saved_disk = Map.empty(data_file two_sites \<mapsto> json_dumps (bookmarks two_sites))"
    by (simp add: saved_disk_def two_sites_def)
  have loaded: "load_bookmarks True the_file saved_disk = Loaded [example_site, docs_site]"
    using load_after_save(2)[OF enc, of Map.empty] by (simp add: disk) (simp add: two_sites_def)
  have env: "read_ok user_env" "save_io user_env = IoSuccess"
    by (simp_all add: user_env_def)
  have tags: "sort (remdups (map tag [example_site, docs_site]))
      = [str ''dev tools'', str ''web'']"
    by (simp add: example_site_def docs_site_def site_def str_def)
  have r: "fst (main user_env \<lparr>command = Some CmdTags, file_arg = str ''other.json''\<rparr>
        saved_disk) = TagList (Some [str ''dev tools'', str ''web''])"
    using loaded tags
    by (simp add: main_def the_file_path execute_def list_tags_def raised_def env)
  have "snd (main user_env \<lparr>command = Some CmdTags, file_arg = str ''other.json''\<rparr> saved_disk)
     = saved_disk"
    using read_only_operations_keep_state[where c = CmdTags and e = user_env
        and f = "str ''other.json''" and d = saved_disk]
    by simp
  with r show ?thesis by (simp add: prod_eq_iff)
qed

section \<open>Saving and loading\<close>

text \<open>
  The text that reaches the file when the title of the only record is a lone surrogate
  ends after the colon of the member \<open>title\<close>. The decoder refuses it with every fuel.
\<close>

lemma handed_odd:
  "takeWhile encodable (json_chunks [odd_site]) = take 9 (json_chunks [odd_site])"
  by (simp add: json_chunks_def bookmark_chunks_def members_in_def member_chunks_def
      member_value_def member_name_def odd_site_def encodable_encode_string encodable_str
      encodable_Cons encodable_newline_indent encodable_Nil)

lemma end_of_input: "parse_value n [] = None"
  by (cases n) simp_all

lemma member_unfinished:
  "parse_object_items n (concat (map escape_char k) @ [0x22, 0x3A, 0x20]) = None"
proof (cases n)
  case 0
  then show ?thesis by simp
next
  case (Suc j)
  have "scanstring (concat (map escape_char k) @ 0x22 # [0x3A, 0x20]) = Some (k, [0x3A, 0x20])"
    by (rule scanstring_escaped)
  moreover have "skip_ws [] = []"
    by (simp add: skip_ws_def)
  ultimately show ?thesis
    by (simp add: Suc skip_ws_id skip_ws_space not_ws end_of_input
        del: parse_value.simps)
qed

lemma member_then_unfinished:
  assumes "\<And>j. parse_object_items j rest = None"
  shows "parse_object_items n
     (concat (map escape_char k) @ 0x22 # 0x3A # 0x20 # encode_string v
        @ 0x2C # newline_indent 2 @ 0x22 # rest) = None"
proof (cases n)
  case 0
  then show ?thesis by simp
next
  case (Suc j)
  have pv: "parse_value j (encode_string v @ r') = None
      \<or> parse_value j (encode_string v @ r') = Some (JString v, r')" for r'
    by (cases j) (simp_all add: parse_string_value del: parse_value.simps(2))
  show ?thesis
    using pv[of "0x2C # newline_indent 2 @ 0x22 # rest"] assms
    by (auto simp add: Suc scanstring_escaped skip_ws_id skip_ws_space not_ws
        skip_ws_newline_indent skip_ws_encode_string simp del: parse_value.simps)
qed

lemma object_unfinished:
  assumes "\<And>j. parse_object_items j rest = None"
  shows "parse_value n (0x7B # newline_indent 2 @ 0x22 # rest) = None"
  using assms by (cases n) (simp_all add: skip_ws_newline_indent not_ws)

lemma array_unfinished:
  assumes "\<And>j. parse_value j (0x7B # rest) = None"
  shows "parse_value n (0x5B # newline_indent 1 @ 0x7B # rest) = None"
proof (cases n)
  case 0
  then show ?thesis by simp
next
  case (Suc j)
  have "parse_array_items j (0x7B # rest) = None"
    using assms by (cases j) simp_all
  then show ?thesis
    by (simp add: Suc skip_ws_newline_indent not_ws)
qed

lemma handed_odd_text:
  "concat (take 9 (json_chunks [odd_site]))
   = 0x5B # newline_indent 1 @ 0x7B # newline_indent 2 @ 0x22 #
       (concat (map escape_char (str ''url'')) @ 0x22 # 0x3A # 0x20
          # encode_string (str ''https://odd.example/'')
          @ 0x2C # newline_indent 2 @ 0x22 #
          (concat (map escape_char (str ''title'')) @ [0x22, 0x3A, 0x20]))"
  by (simp add: json_chunks_def bookmark_chunks_def members_in_def member_chunks_def
      member_value_def member_name_def odd_site_def encode_string_def str_def)

lemma truncated_not_json:
  "json_loads (concat (take 9 (json_chunks [odd_site]))) = None"
proof -
  have "parse_value n (concat (take 9 (json_chunks [odd_site]))) = None" for n
    unfolding handed_odd_text
    by (rule array_unfinished, rule object_unfinished, rule member_then_unfinished,
        rule member_unfinished)
  moreover have "skip_ws (concat (take 9 (json_chunks [odd_site])))
      = concat (take 9 (json_chunks [odd_site]))"
    unfolding handed_odd_text by (simp add: skip_ws_id not_ws)
  ultimately show ?thesis
    by (simp add: json_loads_def)
qed

text \<open>
  C7: saving a collection and loading the file again yields the same collection. For every
  manager whose strings hold no surrogate code point, whatever the code points otherwise
  and whatever the order of the members of each record, a save that meets no \<open>IOError\<close>
  returns \<open>True\<close> and writes the text of \<open>json.dump\<close>, and \<open>_load_bookmarks\<close> on the file
  that can be read returns the records of the manager: the same records with the same
  fields, in the same order.
\<close>
theorem save_then_load_roundtrip:
  "list_all fields_encodable (bookmarks m) \<longrightarrow>
     save_bookmarks IoSuccess m d = (Saved, d(data_file m \<mapsto> json_dumps (bookmarks m)))
     \<and> load_bookmarks True (data_file m) (snd (save_bookmarks IoSuccess m d))
         = Loaded (bookmarks m)"
proof
  assume enc: "list_all fields_encodable (bookmarks m)"
  note saved = load_after_save(1)[OF enc, of d]
  note loaded = load_after_save(2)[OF enc, of d]
  show "save_bookmarks IoSuccess m d = (Saved, d(data_file m \<mapsto> json_dumps (bookmarks m)))
     \<and> load_bookmarks True (data_file m) (snd (save_bookmarks IoSuccess m d))
         = Loaded (bookmarks m)"
    using saved loaded by simp
qed

text \<open>The two example records, saved on an empty disk and loaded again.\<close>

theorem save_then_load_roundtrip_witness:
  "list_all fields_encodable (bookmarks two_sites)
   \<and> save_bookmarks IoSuccess two_sites Map.empty = (Saved, saved_disk)
   \<and> load_bookmarks True the_file saved_disk = Loaded [example_site, docs_site]"
proof -
  have enc: "list_all fields_encodable (bookmarks two_sites)"
    by (simp add: two_sites_def example_site_def docs_site_def fields_encodable_site)
  have disk: "Map.empty(data_file two_sites \<mapsto> json_dumps (bookmarks two_sites)) = saved_disk"
    by (simp add: saved_disk_def two_sites_def)
  have both: "save_bookmarks IoSuccess two_sites Map.empty = (Saved, saved_disk)
     \<and> load_bookmarks True (data_file two_sites)
          (snd (save_bookmarks IoSuccess two_sites Map.empty)) = Loaded (bookmarks two_sites)"
    using save_then_load_roundtrip[of two_sites Map.empty] enc by (auto simp add: disk)
  then have saved: "save_bookmarks IoSuccess two_sites Map.empty = (Saved, saved_disk)"
    by (rule conjunct1)
  have "load_bookmarks True (data_file two_sites) saved_disk = Loaded (bookmarks two_sites)"
    using conjunct2[OF both] unfolding saved by simp
  then show ?thesis
    using enc saved by (simp add: two_sites_def)
qed

text \<open>
  For every collection the statement fails. The collection of the one record whose title
  is the lone surrogate \<open>U+DCFF\<close> has string fields; its save raises after the text up to
  the title has been written, and loading that file yields the empty collection. And when
  the file cannot be opened for writing, the save of the two example records changes
  nothing on the disk, and loading yields the empty collection.
\<close>

theorem save_then_load_loses_collection_counterexample:
  "save_bookmarks IoSuccess odd_only Map.empty
     = (SaveRaised, [the_file \<mapsto> handed_to_file [odd_site]])
   \<and> load_bookmarks True the_file [the_file \<mapsto> handed_to_file [odd_site]] = Loaded []
   \<and> bookmarks odd_only = [odd_site]
   \<and> save_bookmarks IoOpenError two_sites Map.empty = (SaveFailed, Map.empty)
   \<and> load_bookmarks True the_file Map.empty = Loaded []
   \<and> bookmarks two_sites = [example_site, docs_site]"
proof -
  have raise: "save_bookmarks IoSuccess odd_only Map.empty
     = (SaveRaised, [the_file \<mapsto> handed_to_file [odd_site]])"
    by (simp add: save_bookmarks_def encodable_json_chunks not_encodable_odd odd_only_def)
  have "json_loads (handed_to_file [odd_site]) = None"
    by (simp add: handed_to_file_def handed_odd truncated_not_json)
  then have reload: "load_bookmarks True the_file [the_file \<mapsto> handed_to_file [odd_site]]
      = Loaded []"
    by (simp add: load_bookmarks_def encodable_handed_to_file)
  have odd: "bookmarks odd_only = [odd_site]" by (simp add: odd_only_def)
  have failed: "save_bookmarks IoOpenError two_sites Map.empty = (SaveFailed, Map.empty)"
    by (simp add: save_bookmarks_def)
  have none: "load_bookmarks True the_file Map.empty = Loaded []"
    by (simp add: load_bookmarks_def)
  have two: "bookmarks two_sites = [example_site, docs_site]" by (simp add: two_sites_def)
  from raise reload odd failed none two show ?thesis by (intro conjI)
qed

end
